theory Spec2Isabelle
  imports Complex_Main "HOL-Library.Log_Nat"
begin

section \<open>Errors\<close>

text \<open>
  The Python exceptions that the notebook's functions can raise, as values. A function that
  can raise returns \<open>py_error + 'a\<close>, with \<open>Inl\<close> for the exception.
\<close>

datatype py_error =
    FileNotFoundError
  | ZeroDivisionError
  | ValueError
  | RuntimeError
  | AttributeError
  | UnidentifiedImageError
  | OverflowError
  | ConnectionError
  | ReadError
  | IsADirectoryError
  | NotADirectoryError
  | UnpicklingError

section \<open>The running-statistic tracker \<open>ValueCache\<close>\<close>

text \<open>
  \<^verbatim>\<open>
  class ValueCache(object):
      def __init__(self):
          self.reset()
      def reset(self):
          self.value = 0.0
          self.sum = 0.0
          self.count = 0
          self.mean = 0.0
      def update(self, value, n=1):
          self.value = value
          self.sum += value * n
          self.count += n
          self.mean = self.sum/self.count
  \<close>
  The notebook passes two kinds of value to \<open>update\<close>: the loss tracker gets the Python
  float \<open>loss.item()\<close>, the accuracy tracker gets the 0-dim tensor
  \<open>accuracy_score(...)[0]\<close>. The two kinds divide differently: a Python float divided by
  zero raises ZeroDivisionError, a tensor divided by zero is \<open>inf\<close>, \<open>-inf\<close> or \<open>nan\<close> and
  nothing is raised. A float is therefore a finite number, an infinity or \<open>nan\<close>
  (\<open>fval\<close>), and a value is a Python float or a tensor holding one (\<open>pyval\<close>). Finite
  arithmetic is idealised: the finite values are reals and operations on them are exact.
\<close>

datatype fval = Fin real | PInf | NInf | NaN

datatype pyval = PyFloat fval | Tensor fval

fun is_tensor :: "pyval \<Rightarrow> bool" where
  "is_tensor (Tensor x) = True"
| "is_tensor (PyFloat x) = False"

fun raw :: "pyval \<Rightarrow> fval" where
  "raw (Tensor x) = x"
| "raw (PyFloat x) = x"

text \<open>Float addition, with the IEEE rules for infinities and \<open>nan\<close>.\<close>

fun fadd :: "fval \<Rightarrow> fval \<Rightarrow> fval" where
  "fadd (Fin a) (Fin b) = Fin (a + b)"
| "fadd NaN y = NaN"
| "fadd x NaN = NaN"
| "fadd PInf NInf = NaN"
| "fadd NInf PInf = NaN"
| "fadd PInf y = PInf"
| "fadd x PInf = PInf"
| "fadd NInf y = NInf"
| "fadd x NInf = NInf"

text \<open>The product of a float with a Python int.\<close>

fun fmul_int :: "fval \<Rightarrow> int \<Rightarrow> fval" where
  "fmul_int (Fin a) n = Fin (a * of_int n)"
| "fmul_int NaN n = NaN"
| "fmul_int PInf n = (if 0 < n then PInf else if n < 0 then NInf else NaN)"
| "fmul_int NInf n = (if 0 < n then NInf else if n < 0 then PInf else NaN)"

text \<open>
  The IEEE quotient of a float by a Python int, as tensors compute it: a zero divisor gives
  an infinity with the sign of the dividend, and \<open>nan\<close> for the dividend zero.
\<close>

fun fdiv_int :: "fval \<Rightarrow> int \<Rightarrow> fval" where
  "fdiv_int (Fin a) n =
     (if n \<noteq> 0 then Fin (a / of_int n)
      else if 0 < a then PInf else if a < 0 then NInf else NaN)"
| "fdiv_int NaN n = NaN"
| "fdiv_int PInf n = (if n < 0 then NInf else PInf)"
| "fdiv_int NInf n = (if n < 0 then PInf else NInf)"

text \<open>
  Python's \<open>value * n\<close>, \<open>sum + x\<close> and \<open>sum / count\<close> on the two kinds: a result is a
  tensor as soon as an operand is one, and only the quotient of a Python float by zero
  raises.
\<close>

definition py_mul :: "pyval \<Rightarrow> int \<Rightarrow> pyval" where
  "py_mul v n = (if is_tensor v then Tensor (fmul_int (raw v) n) else PyFloat (fmul_int (raw v) n))"

definition py_add :: "pyval \<Rightarrow> pyval \<Rightarrow> pyval" where
  "py_add x y =
     (if is_tensor x \<or> is_tensor y then Tensor (fadd (raw x) (raw y))
      else PyFloat (fadd (raw x) (raw y)))"

definition py_div :: "pyval \<Rightarrow> int \<Rightarrow> py_error + pyval" where
  "py_div x n =
     (if is_tensor x then Inr (Tensor (fdiv_int (raw x) n))
      else if n = 0 then Inl ZeroDivisionError
      else Inr (PyFloat (fdiv_int (raw x) n)))"

text \<open>
  The four attributes are the fields \<open>vc_value\<close>, \<open>vc_sum\<close>, \<open>vc_count\<close> and \<open>vc_mean\<close>
  (prefixed, since \<open>value\<close> and \<open>sum\<close> are taken in Isabelle); \<open>count\<close> is a Python int.
  \<open>mean\<close> is a stored attribute, so reading it is a field access and computes nothing.
  \<open>update\<close> assigns \<open>value\<close>, \<open>sum\<close> and \<open>count\<close> before it divides: an exception of the
  division leaves the three assignments in place and \<open>mean\<close> as it was.
\<close>

record ValueCache =
  vc_value :: pyval
  vc_sum :: pyval
  vc_count :: int
  vc_mean :: pyval

definition reset :: "ValueCache \<Rightarrow> ValueCache" where
  "reset self = self\<lparr>vc_value := PyFloat (Fin 0), vc_sum := PyFloat (Fin 0), vc_count := 0,
                      vc_mean := PyFloat (Fin 0)\<rparr>"

definition update :: "ValueCache \<Rightarrow> pyval \<Rightarrow> int \<Rightarrow> (py_error + unit) \<times> ValueCache" where
  "update self v n =
     (let s1 = self\<lparr>vc_value := v\<rparr>;
          s2 = s1\<lparr>vc_sum := py_add (vc_sum s1) (py_mul v n)\<rparr>;
          s3 = s2\<lparr>vc_count := vc_count s2 + n\<rparr>
      in case py_div (vc_sum s3) (vc_count s3) of
           Inl e \<Rightarrow> (Inl e, s3)
         | Inr m \<Rightarrow> (Inr (), s3\<lparr>vc_mean := m\<rparr>))"

text \<open>\<open>ValueCache()\<close>: the constructor only calls \<open>reset\<close>.\<close>

definition ValueCache_init :: ValueCache where
  "ValueCache_init =
     reset \<lparr>vc_value = PyFloat (Fin 0), vc_sum = PyFloat (Fin 0), vc_count = 0,
            vc_mean = PyFloat (Fin 0)\<rparr>"



section \<open>Double-precision arithmetic\<close>

text \<open>
  \<open>process_image\<close> truncates the result of float operations to an integer, so rounding
  decides pixel counts there and the doubles are modelled exactly: a finite double is the
  rational it denotes, and each operation is the exact operation followed by \<open>fl\<close>,
  rounding to the nearest double with ties to even (53 significant bits). \<open>binexp x\<close> is the
  exponent \<open>e\<close> with \<open>2^e \<le> x < 2^(e+1)\<close>. Overflow and subnormal numbers are left out:
  every quantity in \<open>process_image\<close> lies far inside the normal range.
\<close>

definition pow2 :: "int \<Rightarrow> rat" where
  "pow2 e = (if 0 \<le> e then 2 ^ nat e else 1 / 2 ^ nat (- e))"

definition binexp :: "rat \<Rightarrow> int" where
  "binexp x = (if 1 \<le> x then bitlen \<lfloor>x\<rfloor> - 1 else - bitlen (\<lceil>1 / x\<rceil> - 1))"

definition round_half_even :: "rat \<Rightarrow> int" where
  "round_half_even x =
     (let f = \<lfloor>x\<rfloor>; r = x - of_int f
      in if r < 1 / 2 then f else if 1 / 2 < r then f + 1
         else if even f then f else f + 1)"

definition fl :: "rat \<Rightarrow> rat" where
  "fl x =
     (if x = 0 then 0
      else let a = \<bar>x\<bar>; u = pow2 (binexp a - 52); m = round_half_even (a / u)
           in sgn x * of_int m * u)"

text \<open>
  The same rounding with \<open>p\<close> significant bits; \<open>fl32\<close> is the rounding of the
  single-precision tensors (24 bits), and \<open>round_to 53\<close> is \<open>fl\<close>.
\<close>

definition round_to :: "nat \<Rightarrow> rat \<Rightarrow> rat" where
  "round_to p x =
     (if x = 0 then 0
      else let a = \<bar>x\<bar>; u = pow2 (binexp a + 1 - int p); m = round_half_even (a / u)
           in sgn x * of_int m * u)"

definition fl32 :: "rat \<Rightarrow> rat" where
  "fl32 x = round_to 24 x"

text \<open>Python's \<open>int()\<close> on a finite float truncates towards zero.\<close>

definition trunc :: "rat \<Rightarrow> int" where
  "trunc x = (if 0 \<le> x then \<lfloor>x\<rfloor> else \<lceil>x\<rceil>)"

section \<open>Image preprocessing: \<open>process_image\<close>\<close>

text \<open>
  A PIL image is its size \<open>(width, height)\<close>, its number of bands and its pixels:
  \<open>im_px img x y\<close> is the list of band values (0..255) at column \<open>x\<close>, row \<open>y\<close>.
\<close>

record pil_image =
  im_size :: "nat \<times> nat"
  im_bands :: nat
  im_px :: "int \<Rightarrow> int \<Rightarrow> nat list"

text \<open>
  \<^verbatim>\<open>
  w, h = image.size
  scale = (out_size + 32)/ np.min([w,h])
  image = image.resize((int(scale * w),int(scale * h)))
  \<close>
  The notebook imports true division, so \<open>/\<close> is a double division; \<open>scale * w\<close> is a
  double product and \<open>int\<close> truncates it. With a side of length zero the quotient is
  numpy's \<open>inf\<close>: \<open>int(inf * 0)\<close> is \<open>int(nan)\<close>, a ValueError, and \<open>int(inf * w)\<close> an
  OverflowError. \<open>resize_size\<close> is the size handed to \<open>image.resize\<close>.
\<close>

definition resize_size :: "nat \<Rightarrow> nat \<times> nat \<Rightarrow> py_error + nat \<times> nat" where
  "resize_size out_size sz =
     (case sz of (w, h) \<Rightarrow>
        if min w h = 0 then (if w = 0 then Inl ValueError else Inl OverflowError)
        else let scale = fl (of_nat (out_size + 32) / of_nat (min w h))
             in Inr (nat (trunc (fl (scale * of_nat w))), nat (trunc (fl (scale * of_nat h)))))"

text \<open>
  \<open>Image.resize\<close> resamples the pixels with a filter of the imaging library; the filter is
  the parameter \<open>resample\<close>. The size of the result is the requested size.
\<close>

definition pil_resize ::
  "(pil_image \<Rightarrow> nat \<times> nat \<Rightarrow> int \<Rightarrow> int \<Rightarrow> nat list) \<Rightarrow> pil_image \<Rightarrow> nat \<times> nat \<Rightarrow> pil_image" where
  "pil_resize resample img sz = img\<lparr>im_size := sz, im_px := resample img sz\<rparr>"

text \<open>
  \<^verbatim>\<open>
  left = int((image.size[0]/2) - (out_size/2))
  upper = int((image.size[1]/2) - (out_size/2))
  right = left + out_size
  lower = upper + out_size
  image = image.crop((left, upper, right, lower))
  \<close>
  \<open>Image.crop\<close> returns an image of size \<open>(right - left, lower - upper)\<close>; the part of the
  box outside the source is filled with zeros.
\<close>

definition crop_offset :: "nat \<Rightarrow> nat \<Rightarrow> int" where
  "crop_offset side out_size = trunc (fl (fl (of_nat side / 2) - fl (of_nat out_size / 2)))"

definition pil_crop :: "pil_image \<Rightarrow> int \<times> int \<times> int \<times> int \<Rightarrow> pil_image" where
  "pil_crop img box =
     (case box of (left, upper, right, lower) \<Rightarrow>
        img\<lparr>im_size := (nat (right - left), nat (lower - upper)),
            im_px := (\<lambda>x y.
              if 0 \<le> x + left \<and> x + left < int (fst (im_size img))
                 \<and> 0 \<le> y + upper \<and> y + upper < int (snd (im_size img))
              then im_px img (x + left) (y + upper)
              else replicate (im_bands img) 0)\<rparr>)"

definition center_crop :: "pil_image \<Rightarrow> nat \<Rightarrow> pil_image" where
  "center_crop img out_size =
     (let left = crop_offset (fst (im_size img)) out_size;
          upper = crop_offset (snd (im_size img)) out_size;
          right = left + int out_size;
          lower = upper + int out_size
      in pil_crop img (left, upper, right, lower))"

text \<open>
  \<^verbatim>\<open>
  image = np.array(image)/255
  mean = np.array([0.485, 0.456, 0.406])
  std = np.array([0.229, 0.224, 0.225])
  image = (image - mean) / std
  image = image.transpose((2,0,1))
  \<close>
  The decimal constants are the doubles nearest to them. Each pixel value goes through three
  rounded operations. The array of an image with three bands has shape (height, width, 3);
  with any other number of bands the subtraction of the three means or the transposition of
  three axes raises ValueError. The result is indexed channel, row, column.
\<close>

definition mean_rgb :: "rat list" where
  "mean_rgb = [fl (485 / 1000), fl (456 / 1000), fl (406 / 1000)]"

definition std_rgb :: "rat list" where
  "std_rgb = [fl (229 / 1000), fl (224 / 1000), fl (225 / 1000)]"

definition normalize :: "nat \<Rightarrow> nat \<Rightarrow> rat" where
  "normalize c v = fl (fl (fl (of_nat v / 255) - mean_rgb ! c) / std_rgb ! c)"

definition to_chw :: "pil_image \<Rightarrow> rat list list list" where
  "to_chw img =
     map (\<lambda>c. map (\<lambda>y. map (\<lambda>x. normalize c (im_px img (int x) (int y) ! c))
                            [0..<fst (im_size img)])
                   [0..<snd (im_size img)])
         [0..<3]"

definition process_image ::
  "(pil_image \<Rightarrow> nat \<times> nat \<Rightarrow> int \<Rightarrow> int \<Rightarrow> nat list) \<Rightarrow> pil_image \<Rightarrow> nat
     \<Rightarrow> py_error + rat list list list" where
  "process_image resample img out_size =
     (case resize_size out_size (im_size img) of
        Inl e \<Rightarrow> Inl e
      | Inr sz \<Rightarrow>
          let resized = pil_resize resample img sz;
              cropped = center_crop resized out_size
          in if im_bands cropped \<noteq> 3 then Inl ValueError
             else Inr (to_chw cropped))"

section \<open>Top-K selection and the accuracy scorer\<close>

text \<open>
  \<open>tensor.topk(k, 1, True, True)\<close> returns, for each row, the \<open>k\<close> largest scores in
  descending order together with their indices, and raises RuntimeError when \<open>k\<close> is
  negative or larger than the row. Which of several equal scores it selects, and in which
  order it lists them, is left to the library. The selection is therefore a parameter
  \<open>tk\<close> of the model: \<open>tk row k\<close> is the list of indices that the library returns for
  \<open>row\<close> and \<open>k\<close>. \<open>is_topk row k idx\<close> is what the library promises of it: \<open>k\<close> distinct
  indices of the row, listed by descending score, and no index left out has a higher score
  than one selected. The scores are floats; only their order matters here.
\<close>

definition is_topk :: "rat list \<Rightarrow> nat \<Rightarrow> nat list \<Rightarrow> bool" where
  "is_topk row k idx \<longleftrightarrow>
     length idx = k \<and> distinct idx \<and> list_all (\<lambda>i. i < length row) idx
     \<and> sorted_wrt (\<lambda>a b. b \<le> a) (map (\<lambda>i. row ! i) idx)
     \<and> list_all (\<lambda>j. j \<in> set idx \<or> list_all (\<lambda>i. row ! j \<le> row ! i) idx) [0..<length row]"

definition topk ::
  "(rat list \<Rightarrow> nat \<Rightarrow> nat list) \<Rightarrow> rat list \<Rightarrow> int \<Rightarrow> py_error + rat list \<times> nat list" where
  "topk tk row k =
     (if k < 0 \<or> int (length row) < k then Inl RuntimeError
      else let idx = tk row (nat k) in Inr (map (\<lambda>i. row ! i) idx, idx))"

definition topk_rows ::
  "(rat list \<Rightarrow> nat \<Rightarrow> nat list) \<Rightarrow> rat list list \<Rightarrow> int \<Rightarrow> py_error + nat list list" where
  "topk_rows tk output k =
     (if k < 0 \<or> (\<exists>row\<in>set output. int (length row) < k) then Inl RuntimeError
      else Inr (map (\<lambda>row. tk row (nat k)) output))"

text \<open>
  \<open>preds.transpose(0,1)\<close> of a tensor with \<open>ncols\<close> columns: row \<open>j\<close> of the result holds
  entry \<open>j\<close> of every row.
\<close>

definition transpose01 :: "nat \<Rightarrow> 'a list list \<Rightarrow> 'a list list" where
  "transpose01 ncols rows = map (\<lambda>j. map (\<lambda>r. r ! j) rows) [0..<ncols]"

text \<open>
  \<open>target.view(1, -1).expand(preds.size())\<close>: the row of labels is repeated for every rank.
  \<open>expand\<close> accepts a row whose length is the batch size, broadcasts a row of length one,
  and raises RuntimeError otherwise.
\<close>

definition expand_target :: "int list \<Rightarrow> nat \<Rightarrow> py_error + int list" where
  "expand_target target n =
     (if length target = n then Inr target
      else if length target = 1 then Inr (replicate n (hd target))
      else Inl RuntimeError)"

text \<open>The number of rows that the slice \<open>[:k]\<close> keeps of \<open>n\<close> rows (\<open>k\<close> may be negative).\<close>

definition py_stop :: "int \<Rightarrow> nat \<Rightarrow> nat" where
  "py_stop k n = (if k < 0 then nat (int n + k) else min (nat k) n)"

text \<open>
  \<^verbatim>\<open>
  def accuracy_score (output, target, top_k=(1,)):
      max_k = max(top_k)
      n_batch = target.size(0)
      _, preds = output.topk(max_k, 1, True, True)
      preds = preds.transpose(0,1)
      correct = preds.eq(target.view(1, -1).expand(preds.size()))
      retval = []
      for k in top_k:
          correct_k = correct[:k].view(-1).float().sum(0)
          retval.append(correct_k.mul_(100.0 / n_batch))
      return retval
  \<close>
  \<open>max\<close> of an empty tuple raises ValueError; \<open>100.0 / n_batch\<close> raises ZeroDivisionError
  for an empty \<open>target\<close>, in the first round of the loop (a call on an empty batch ends in
  an exception in any case; the model reports this one). A row is a list, so the model
  checks \<open>max_k\<close> against the length of every row present.

  The arithmetic of the last line is modelled exactly. \<open>100.0 / n_batch\<close> is a double
  quotient. \<open>correct_k\<close> is a single-precision tensor: the sum of the 0/1 entries is the
  single-precision number nearest to the number of hits (the number itself below
  \<open>2^24\<close>), and \<open>mul_\<close> converts the double factor to single precision and rounds the
  product to single precision. A score is the rational that the resulting float denotes.
\<close>

definition count_true :: "bool list list \<Rightarrow> nat" where
  "count_true rows = length (filter (\<lambda>b. b) (concat rows))"

definition score_of :: "nat \<Rightarrow> nat \<Rightarrow> rat" where
  "score_of hits n_batch = fl32 (fl32 (of_nat hits) * fl32 (fl (100 / of_nat n_batch)))"

definition accuracy_score ::
  "(rat list \<Rightarrow> nat \<Rightarrow> nat list) \<Rightarrow> rat list list \<Rightarrow> int list \<Rightarrow> int list
     \<Rightarrow> py_error + rat list" where
  "accuracy_score tk output target top_k =
     (if top_k = [] then Inl ValueError
      else let max_k = Max (set top_k);
               n_batch = length target
           in case topk_rows tk output max_k of
                Inl e \<Rightarrow> Inl e
              | Inr preds0 \<Rightarrow>
                  (let preds = transpose01 (nat max_k) preds0
                   in case expand_target target (length output) of
                        Inl e \<Rightarrow> Inl e
                      | Inr tgt \<Rightarrow>
                          (let correct = map (\<lambda>row. map2 (\<lambda>p t. int p = t) row tgt) preds
                           in if n_batch = 0 then Inl ZeroDivisionError
                              else Inr (map (\<lambda>k. score_of
                                                    (count_true (take (py_stop k (length correct)) correct))
                                                    n_batch)
                                            top_k))))"

section \<open>The model object and the files\<close>

text \<open>
  A tensor of the weight state is its shape and its values; \<open>state_dict()\<close> is an ordered
  dictionary from parameter names to tensors. The optimizer state is the sizes of its
  parameter groups and its momentum buffers.
\<close>

type_synonym tensor = "nat list \<times> real list"

type_synonym state_dict = "(string \<times> tensor) list"

record opt_state =
  os_group_sizes :: "nat list"
  os_momentum :: "real list list"

datatype dtype = Float32 | Float64

datatype device = Cpu | Cuda

text \<open>
  The model object of the notebook: the weights (\<open>state_dict()\<close>), the names of the
  parameters with \<open>requires_grad\<close>, the mode, dtype and device that \<open>train\<close>, \<open>eval\<close>,
  \<open>double\<close> and \<open>to\<close> set, and the attributes that the main program attaches after
  training (\<open>epoch\<close>, \<open>optimizer_state\<close>, \<open>best_acc\<close>, \<open>class_to_idx\<close>, \<open>n_classes\<close>).
  An attribute that was never attached is \<open>None\<close>; reading it raises AttributeError.
\<close>

record nn_model =
  weights :: state_dict
  trainable :: "string list"
  training :: bool
  m_dtype :: dtype
  m_device :: device
  epoch :: "nat option"
  optimizer_state :: "opt_state option"
  best_acc :: "real option"
  class_to_idx :: "(string \<times> int) list option"
  n_classes :: "nat option"

text \<open>The dictionary that \<open>save_checkpoint\<close> builds and \<open>torch.save\<close> writes.\<close>

record checkpoint =
  ck_epoch :: nat
  ck_state_dict :: state_dict
  ck_optimizer_state_dict :: opt_state
  ck_best_acc :: real
  ck_class_to_idx :: "(string \<times> int) list"
  ck_n_classes :: nat

text \<open>
  A file holds bytes or an object written by \<open>torch.save\<close>; \<open>torch.load\<close> returns the
  object that \<open>torch.save\<close> wrote (the serialisation itself belongs to the library). The
  state of the outside world is the file tree and the list of URLs requested so far.
\<close>

datatype content = Bytes "nat list" | Pickled checkpoint

datatype node = Dir | File content

record world =
  files :: "string \<rightharpoonup> node"
  http_log :: "string list"

text \<open>
  What the notebook takes from its libraries and from its global variables:
  the resampling filter of \<open>Image.resize\<close>, the image decoder behind \<open>Image.open\<close>, the
  network function in evaluation mode (from weights and one preprocessed image to the row
  of class scores, floats), the selection of \<open>topk\<close>, the float arithmetic of
  \<open>nn.Softmax\<close> (from a row of scores to the row of floats it returns), the loss function,
  the HTTP server, the tar reader, the directory scan \<open>find_classes\<close>, the initial weights
  of \<open>NewModel(n_classes)\<close> (pretrained network plus a freshly initialised head), and the
  globals \<open>data_dir\<close> and \<open>train_dir\<close>.
\<close>

record env =
  e_resample :: "pil_image \<Rightarrow> nat \<times> nat \<Rightarrow> int \<Rightarrow> int \<Rightarrow> nat list"
  e_decode :: "nat list \<Rightarrow> pil_image option"
  e_net :: "(string \<rightharpoonup> tensor) \<Rightarrow> rat list list list \<Rightarrow> rat list"
  e_topk :: "rat list \<Rightarrow> nat \<Rightarrow> nat list"
  e_softmax :: "rat list \<Rightarrow> rat list"
  e_criterion :: "rat list list \<Rightarrow> int list \<Rightarrow> py_error + fval"
  e_http :: "string \<Rightarrow> nat list option"
  e_untar :: "nat list \<Rightarrow> (string \<times> node) list option"
  e_find_classes :: "world \<Rightarrow> string \<Rightarrow> py_error + string list"
  e_init_weights :: "nat \<Rightarrow> state_dict"
  g_data_dir :: string
  g_train_dir :: string

subsection \<open>Paths and files\<close>

definition path_exists :: "world \<Rightarrow> string \<Rightarrow> bool" where
  "path_exists w p = (case files w p of None \<Rightarrow> False | Some _ \<Rightarrow> True)"

definition isfile :: "world \<Rightarrow> string \<Rightarrow> bool" where
  "isfile w p = (case files w p of Some (File _) \<Rightarrow> True | _ \<Rightarrow> False)"

text \<open>\<open>os.path.split(p)[-1]\<close>: what follows the last slash.\<close>

definition basename :: "string \<Rightarrow> string" where
  "basename p = rev (takeWhile (\<lambda>c. c \<noteq> CHR ''/'') (rev p))"

text \<open>What precedes the last slash; empty for a name in the current directory.\<close>

definition dirname :: "string \<Rightarrow> string" where
  "dirname p = rev (drop 1 (dropWhile (\<lambda>c. c \<noteq> CHR ''/'') (rev p)))"

definition join :: "string \<Rightarrow> string \<Rightarrow> string" where
  "join a b =
     (if b \<noteq> [] \<and> hd b = CHR ''/'' then b
      else if a = [] \<or> last a = CHR ''/'' then a @ b
      else a @ ''/'' @ b)"

text \<open>The proper prefixes of a path that end before a slash: its ancestor directories.\<close>

definition ancestors :: "string \<Rightarrow> string list" where
  "ancestors p = map (\<lambda>i. take i p) (filter (\<lambda>i. p ! i = CHR ''/'') [1..<length p])"

text \<open>
  \<open>os.makedirs\<close> creates the directory and the missing ancestors; it raises
  FileNotFoundError for the empty path and NotADirectoryError when an ancestor is a file.
\<close>

definition makedirs :: "world \<Rightarrow> string \<Rightarrow> py_error + world" where
  "makedirs w p =
     (if p = [] then Inl FileNotFoundError
      else if \<exists>q\<in>set (ancestors p). isfile w q then Inl NotADirectoryError
      else Inr (w\<lparr>files := fold (\<lambda>q f. f(q \<mapsto> Dir)) (ancestors p @ [p]) (files w)\<rparr>))"

text \<open>
  Opening a file for writing and writing \<open>c\<close>: the file is created or overwritten; a
  directory in its place or a missing parent directory is an error.
\<close>

definition write_file :: "world \<Rightarrow> string \<Rightarrow> content \<Rightarrow> py_error + world" where
  "write_file w fn c =
     (if files w fn = Some Dir then Inl IsADirectoryError
      else if dirname fn \<noteq> [] \<and> isfile w (dirname fn) then Inl NotADirectoryError
      else if dirname fn \<noteq> [] \<and> files w (dirname fn) = None then Inl FileNotFoundError
      else Inr (w\<lparr>files := (files w)(fn \<mapsto> File c)\<rparr>))"

section \<open>Download: \<open>download_file\<close> and \<open>get_data\<close>\<close>

text \<open>
  \<^verbatim>\<open>
  def download_file(data_url, dest_dir='./'):
      fn = os.path.join(data_dir, os.path.split(data_url)[-1])
      r = requests.get(data_url, stream=True)
      size = int(r.headers.get('Content-Length',0))
      with open(fn, 'wb') as f:
          with tqdm(total=size, unit = 'B', unit_scale=True) as t:
              for chunk in r.iter_content(1024):
                  if chunk:
                      f.write(chunk)
                      t.update(len(chunk))
      return fn
  \<close>
  \<open>data_dir\<close> in the body is the global variable, not the unused parameter \<open>dest_dir\<close>.
  The request is recorded in \<open>http_log\<close>.
\<close>

definition download_file :: "env \<Rightarrow> world \<Rightarrow> string \<Rightarrow> string \<Rightarrow> (py_error + string) \<times> world" where
  "download_file en w data_url dest_dir =
     (let fn = join (g_data_dir en) (basename data_url);
          w1 = w\<lparr>http_log := http_log w @ [data_url]\<rparr>
      in case e_http en data_url of
           None \<Rightarrow> (Inl ConnectionError, w1)
         | Some body \<Rightarrow>
             (case write_file w1 fn (Bytes body) of
                Inl e \<Rightarrow> (Inl e, w1)
              | Inr w2 \<Rightarrow> (Inr fn, w2)))"

text \<open>\<open>tarfile.open(fn)\<close> and \<open>tar.extractall(path=data_dir)\<close>.\<close>

definition tar_extractall :: "env \<Rightarrow> world \<Rightarrow> string \<Rightarrow> string \<Rightarrow> py_error + world" where
  "tar_extractall en w fn data_dir =
     (case files w fn of
        Some (File (Bytes b)) \<Rightarrow>
          (case e_untar en b of
             None \<Rightarrow> Inl ReadError
           | Some entries \<Rightarrow>
               Inr (w\<lparr>files := fold (\<lambda>(name, nd) f. f(join data_dir name \<mapsto> nd)) entries (files w)\<rparr>))
      | Some (File (Pickled _)) \<Rightarrow> Inl ReadError
      | Some Dir \<Rightarrow> Inl IsADirectoryError
      | None \<Rightarrow> Inl FileNotFoundError)"

text \<open>
  \<^verbatim>\<open>
  def get_data(url, data_dir, train_dirname = '/train'):
      train_dir = data_dir + train_dirname
      if os.path.exists(train_dir):
          return
      elif not os.path.exists(data_dir):
          os.makedirs(data_dir)
      fn = download_file(url)
      with tarfile.open(fn) as tar:
          tar.extractall(path=data_dir)
      if os.path.isfile(fn): os.remove(fn)
  \<close>
\<close>

definition get_data :: "env \<Rightarrow> world \<Rightarrow> string \<Rightarrow> string \<Rightarrow> string \<Rightarrow> (py_error + unit) \<times> world" where
  "get_data en w url data_dir train_dirname =
     (let train_dir = data_dir @ train_dirname
      in if path_exists w train_dir then (Inr (), w)
         else case (if \<not> path_exists w data_dir then makedirs w data_dir else Inr w) of
                Inl e \<Rightarrow> (Inl e, w)
              | Inr w1 \<Rightarrow>
                  (case download_file en w1 url ''./'' of
                     (Inl e, w2) \<Rightarrow> (Inl e, w2)
                   | (Inr fn, w2) \<Rightarrow>
                       (case tar_extractall en w2 fn data_dir of
                          Inl e \<Rightarrow> (Inl e, w2)
                        | Inr w3 \<Rightarrow>
                            (Inr (), if isfile w3 fn then w3\<lparr>files := (files w3)(fn := None)\<rparr>
                                     else w3))))"

section \<open>Inference: \<open>predict\<close>\<close>

text \<open>
  \<open>Image.open\<close> reads the file and decodes it; bytes that are no image raise
  UnidentifiedImageError.
\<close>

definition Image_open :: "env \<Rightarrow> world \<Rightarrow> string \<Rightarrow> py_error + pil_image" where
  "Image_open en w p =
     (case files w p of
        Some (File (Bytes b)) \<Rightarrow>
          (case e_decode en b of None \<Rightarrow> Inl UnidentifiedImageError | Some im \<Rightarrow> Inr im)
      | Some (File (Pickled _)) \<Rightarrow> Inl UnidentifiedImageError
      | Some Dir \<Rightarrow> Inl IsADirectoryError
      | None \<Rightarrow> Inl FileNotFoundError)"

text \<open>
  \<open>dict(zip(v, k))\<close> for the values \<open>v\<close> and keys \<open>k\<close> of \<open>class_to_idx\<close>: where two
  classes share an index the later item wins, so the lookup runs over the reversed items.
\<close>

definition invert_dict :: "(string \<times> int) list \<Rightarrow> int \<rightharpoonup> string" where
  "invert_dict items = map_of (rev (map (\<lambda>(k, v). (v, k)) items))"

text \<open>
  \<^verbatim>\<open>
  def predict(image_path, model, topk=5):
      if not os.path.isfile(image_path):
          raise FileNotFoundError ('{} does not exist'.format(image_path))
      image = torch.from_numpy(process_image(Image.open(image_path))).unsqueeze(0)
      model.double()
      model.to('cpu')
      model.eval()
      output = model(image)
      prob, label_idx = torch.topk(output, topk)
      # convert indices to category labels
      k, v = zip(*model.class_to_idx.items())
      idx_to_class = dict(zip(v,k))
      label_classes = [idx_to_class.get(i) for i in label_idx[0].numpy()]
      # The model doesn't give probabilities, so use this to do it.
      sm = nn.Softmax(dim=1)
      prob = sm(prob).detach()[0].numpy()
      return prob, label_classes, image.squeeze(0).numpy()
  \<close>
  The function returns its result or exception together with the model object, which
  \<open>double\<close>, \<open>to\<close> and \<open>eval\<close> change in place. \<open>process_image\<close> is called with its default
  \<open>out_size\<close> of 299. Unpacking \<open>zip(*items)\<close> into \<open>k, v\<close> raises ValueError when the
  dictionary is empty. \<open>dict.get\<close> returns \<open>None\<close> for a missing key. The probabilities
  are the floats that \<open>nn.Softmax\<close> returns for the row of selected scores.
\<close>

definition predict ::
  "env \<Rightarrow> world \<Rightarrow> string \<Rightarrow> nn_model \<Rightarrow> int
     \<Rightarrow> (py_error + rat list \<times> string option list \<times> rat list list list) \<times> nn_model" where
  "predict en w image_path model topk_arg =
     (if \<not> isfile w image_path then (Inl FileNotFoundError, model)
      else case Image_open en w image_path of
             Inl e \<Rightarrow> (Inl e, model)
           | Inr pil \<Rightarrow>
               (case process_image (e_resample en) pil 299 of
                  Inl e \<Rightarrow> (Inl e, model)
                | Inr img \<Rightarrow>
                    (let model1 = model\<lparr>m_dtype := Float64\<rparr>;
                         model2 = model1\<lparr>m_device := Cpu\<rparr>;
                         model3 = model2\<lparr>training := False\<rparr>;
                         output = e_net en (map_of (weights model3)) img
                     in case topk (e_topk en) output topk_arg of
                          Inl e \<Rightarrow> (Inl e, model3)
                        | Inr (prob, label_idx) \<Rightarrow>
                            (case class_to_idx model3 of
                               None \<Rightarrow> (Inl AttributeError, model3)
                             | Some items \<Rightarrow>
                                 if items = [] then (Inl ValueError, model3)
                                 else let idx_to_class = invert_dict items;
                                          label_classes = map (\<lambda>i. idx_to_class (int i)) label_idx
                                      in (Inr (e_softmax en prob, label_classes, img), model3)))))"

section \<open>Validation pass\<close>

text \<open>
  \<^verbatim>\<open>
  def validate(model, valid_loader, criterion, device='cpu', action='Validation'):
      losses = ValueCache()
      acc = ValueCache()
      model.to(device)
      model.eval()
      with tqdm(valid_loader, unit='batch', postfix=None) as t:
          for i, (images, labels) in enumerate(t):
              images, labels = images.to(device), labels.to(device)
              output = model(images)
              loss = criterion(output, labels)
              losses.update(loss.item(), images.size(0))
              acc.update(accuracy_score(output.data, labels)[0], images.size(0))
              if i % print_freq == (print_freq-1):
                  t.postfix = get_postfix(losses, acc, action)
      return acc.mean
  \<close>
  The loader is the list of its batches, each a list of images with the list of their
  labels. The progress bar is left out. The loss tracker is updated with a Python float,
  the accuracy tracker with a tensor.
\<close>

fun validate_loop ::
  "env \<Rightarrow> (string \<rightharpoonup> tensor) \<Rightarrow> ValueCache \<Rightarrow> ValueCache
     \<Rightarrow> (rat list list list list \<times> int list) list \<Rightarrow> py_error + ValueCache \<times> ValueCache" where
  "validate_loop en sd losses acc [] = Inr (losses, acc)"
| "validate_loop en sd losses acc ((images, labels) # rest) =
     (let output = map (e_net en sd) images
      in case e_criterion en output labels of
           Inl e \<Rightarrow> Inl e
         | Inr loss \<Rightarrow>
             (case update losses (PyFloat loss) (int (length images)) of
                (Inl e, _) \<Rightarrow> Inl e
              | (Inr _, losses') \<Rightarrow>
                  (case accuracy_score (e_topk en) output labels [1] of
                     Inl e \<Rightarrow> Inl e
                   | Inr accuracy \<Rightarrow>
                       (case update acc (Tensor (Fin (of_rat (accuracy ! 0)))) (int (length images)) of
                          (Inl e, _) \<Rightarrow> Inl e
                        | (Inr _, acc') \<Rightarrow> validate_loop en sd losses' acc' rest))))"

definition validate ::
  "env \<Rightarrow> nn_model \<Rightarrow> (rat list list list list \<times> int list) list \<Rightarrow> device
     \<Rightarrow> (py_error + pyval) \<times> nn_model" where
  "validate en model valid_loader dev =
     (let model1 = model\<lparr>m_device := dev\<rparr>;
          model2 = model1\<lparr>training := False\<rparr>
      in case validate_loop en (map_of (weights model2)) ValueCache_init ValueCache_init valid_loader of
           Inl e \<Rightarrow> (Inl e, model2)
         | Inr (losses, acc) \<Rightarrow> (Inr (vc_mean acc), model2))"

section \<open>Checkpoints: \<open>save_checkpoint\<close> and \<open>load_checkpoint\<close>\<close>

text \<open>
  \<^verbatim>\<open>
  def save_checkpoint(model, filename='./checkpoint.pth'):
      model_state = {
      'epoch': model.epoch,
      'state_dict': model.state_dict(),
      'optimizer_state_dict': model.optimizer_state,
      'best_acc': model.best_acc,
      'class_to_idx': model.class_to_idx,
      'n_classes': model.n_classes,
      }
      torch.save(model_state, filename)
  \<close>
\<close>

definition save_checkpoint :: "world \<Rightarrow> nn_model \<Rightarrow> string \<Rightarrow> (py_error + unit) \<times> world" where
  "save_checkpoint w model filename =
     (case (epoch model, optimizer_state model, best_acc model, class_to_idx model, n_classes model) of
        (Some ep, Some os, Some ba, Some c2i, Some nc) \<Rightarrow>
          (let model_state = \<lparr>ck_epoch = ep, ck_state_dict = weights model,
                              ck_optimizer_state_dict = os, ck_best_acc = ba,
                              ck_class_to_idx = c2i, ck_n_classes = nc\<rparr>
           in case write_file w filename (Pickled model_state) of
                Inl e \<Rightarrow> (Inl e, w)
              | Inr w' \<Rightarrow> (Inr (), w'))
      | _ \<Rightarrow> (Inl AttributeError, w))"

text \<open>
  \<open>NewModel(n_classes)\<close>: the pretrained network with a new head. Only the four tensors
  of the head require gradients, the module starts in training mode on the CPU in single
  precision, and none of the attributes of the main program is attached.
\<close>

definition NewModel :: "env \<Rightarrow> nat \<Rightarrow> nn_model" where
  "NewModel en n =
     \<lparr>weights = e_init_weights en n,
      trainable = [''classifier.fc0.weight'', ''classifier.fc0.bias'',
                   ''classifier.fc.weight'', ''classifier.fc.bias''],
      training = True, m_dtype = Float32, m_device = Cpu,
      epoch = None, optimizer_state = None, best_acc = None,
      class_to_idx = None, n_classes = None\<rparr>"

text \<open>
  \<open>model.load_state_dict(sd)\<close> is strict: every parameter of the model must be in \<open>sd\<close>
  with the same shape and \<open>sd\<close> must have no other key, else RuntimeError. The values are
  copied into the model's own parameters.
\<close>

definition load_state_dict :: "nn_model \<Rightarrow> state_dict \<Rightarrow> py_error + nn_model" where
  "load_state_dict model sd =
     (if list_all (\<lambda>(k, t). case map_of sd k of None \<Rightarrow> False | Some t' \<Rightarrow> fst t' = fst t)
                  (weights model)
         \<and> list_all (\<lambda>(k, t). k \<in> set (map fst (weights model))) sd
      then Inr (model\<lparr>weights :=
                  map (\<lambda>(k, t). (k, case map_of sd k of None \<Rightarrow> t | Some t' \<Rightarrow> t')) (weights model)\<rparr>)
      else Inl RuntimeError)"

text \<open>
  \<open>torch.load(filename, map_location='cpu')\<close>.
\<close>

definition torch_load :: "world \<Rightarrow> string \<Rightarrow> py_error + checkpoint" where
  "torch_load w filename =
     (case files w filename of
        Some (File (Pickled c)) \<Rightarrow> Inr c
      | Some (File (Bytes _)) \<Rightarrow> Inl UnpicklingError
      | Some Dir \<Rightarrow> Inl IsADirectoryError
      | None \<Rightarrow> Inl FileNotFoundError)"

text \<open>
  \<open>optim.SGD(filter(lambda p: p.requires_grad, model.parameters()), ...)\<close> has one group
  with the trainable parameters and raises ValueError for an empty parameter list;
  \<open>optimizer.load_state_dict\<close> raises ValueError when the saved group sizes differ from
  the optimizer's. The hyperparameters are the constants of the call.
\<close>

definition SGD_load_state_dict :: "nn_model \<Rightarrow> opt_state \<Rightarrow> py_error + opt_state" where
  "SGD_load_state_dict model os =
     (if trainable model = [] then Inl ValueError
      else if os_group_sizes os \<noteq> [length (trainable model)] then Inl ValueError
      else Inr os)"

text \<open>
  \<^verbatim>\<open>
  def load_checkpoint(model=None, filename='./checkpoint.pth'):
      if model is None:
          model = NewModel(n_classes=len(datasets.folder.find_classes(train_dir)[0]))
      model_state = torch.load(filename, map_location='cpu')
      model.load_state_dict(model_state['state_dict'])
      optimizer=optim.SGD(filter(lambda p: p.requires_grad, model.parameters()),
                        lr=0.1, momentum=0.8, weight_decay=0.0, nesterov=False)
      optimizer.load_state_dict(model_state['optimizer_state_dict'])
      return model, optimizer
  \<close>
  Of the checkpoint only \<open>state_dict\<close> and \<open>optimizer_state_dict\<close> are read.
\<close>

definition load_checkpoint ::
  "env \<Rightarrow> world \<Rightarrow> nn_model option \<Rightarrow> string \<Rightarrow> py_error + nn_model \<times> opt_state" where
  "load_checkpoint en w model_arg filename =
     (case (case model_arg of
              None \<Rightarrow> (case e_find_classes en w (g_train_dir en) of
                         Inl e \<Rightarrow> Inl e
                       | Inr classes \<Rightarrow> Inr (NewModel en (length classes)))
            | Some m \<Rightarrow> Inr m) of
        Inl e \<Rightarrow> Inl e
      | Inr model \<Rightarrow>
          (case torch_load w filename of
             Inl e \<Rightarrow> Inl e
           | Inr model_state \<Rightarrow>
               (case load_state_dict model (ck_state_dict model_state) of
                  Inl e \<Rightarrow> Inl e
                | Inr model1 \<Rightarrow>
                    (case SGD_load_state_dict model1 (ck_optimizer_state_dict model_state) of
                       Inl e \<Rightarrow> Inl e
                     | Inr optimizer \<Rightarrow> Inr (model1, optimizer)))))"

section \<open>Sample data\<close>

text \<open>
  Concrete inputs at which the theorems below are instantiated: a batch of three score
  rows, an image of 568 by 700 pixels with three bands, a world with the dataset directory
  and one image file, and a trained model whose \<open>class_to_idx\<close> names the output indices
  0 and 3 only. The sample network returns the scores 1, 5, 2, 3 for every image. The
  sample selection \<open>sample_topk\<close> sorts the indices by decreasing score; no sample row
  holds two equal scores. The sample softmax returns, for the scores 5 and 3, the doubles
  0.8807970779778823 and 0.11920292202211755 that \<open>nn.Softmax\<close> computes for them, and
  1.0 for a single score.
\<close>

definition sample_topk :: "rat list \<Rightarrow> nat \<Rightarrow> nat list" where
  "sample_topk row k = take k (sort_key (\<lambda>i. - (row ! i)) [0..<length row])"

definition sample_softmax :: "rat list \<Rightarrow> rat list" where
  "sample_softmax xs =
     (if xs = [5, 3] then [7933514784340425 / 9007199254740992, 4294737881602263 / 36028797018963968]
      else if length xs = 1 then [1]
      else map (\<lambda>x. 0) xs)"

definition sample_scores :: "rat list list" where
  "sample_scores = [[1, 3, 2], [5, 4, 0], [2, 1, 0]]"

definition sample_image :: pil_image where
  "sample_image = \<lparr>im_size = (568, 700), im_bands = 3, im_px = (\<lambda>x y. [255, 128, 0])\<rparr>"

definition sample_weights :: state_dict where
  "sample_weights = [(''classifier.fc.bias'', ([2], [1 / 2, - 1 / 4]))]"

definition sample_env :: env where
  "sample_env =
     \<lparr>e_resample = (\<lambda>img sz x y. im_px img 0 0),
      e_decode = (\<lambda>b. if b = [255, 216] then Some sample_image else None),
      e_net = (\<lambda>sd img. [1, 5, 2, 3]),
      e_topk = sample_topk,
      e_softmax = sample_softmax,
      e_criterion = (\<lambda>out labels. Inr (Fin 0)),
      e_http = (\<lambda>url. None),
      e_untar = (\<lambda>b. None),
      e_find_classes = (\<lambda>w p. Inr [''1'', ''74'']),
      e_init_weights = (\<lambda>n. [(''classifier.fc.bias'', ([n], replicate n 0))]),
      g_data_dir = ''flowers'',
      g_train_dir = ''flowers/train''\<rparr>"

definition sample_world :: world where
  "sample_world =
     \<lparr>files = [''.'' \<mapsto> Dir, ''flowers'' \<mapsto> Dir, ''flowers/train'' \<mapsto> Dir,
               ''rose.jpg'' \<mapsto> File (Bytes [255, 216])],
      http_log = []\<rparr>"

definition sample_model :: nn_model where
  "sample_model =
     \<lparr>weights = sample_weights,
      trainable = [''classifier.fc0.weight'', ''classifier.fc0.bias'',
                   ''classifier.fc.weight'', ''classifier.fc.bias''],
      training = True, m_dtype = Float32, m_device = Cuda,
      epoch = Some 5,
      optimizer_state = Some \<lparr>os_group_sizes = [4], os_momentum = []\<rparr>,
      best_acc = Some 90,
      class_to_idx = Some [(''1'', 0), (''74'', 3)],
      n_classes = Some 2\<rparr>"

definition sample_tensor :: "rat list list list" where
  "sample_tensor =
     to_chw (center_crop (pil_resize (e_resample sample_env) sample_image (330, 407)) 299)"

section \<open>Properties of the tracker\<close>












section \<open>Properties of the rounding functions\<close>

text \<open>
  Facts about \<open>binexp\<close>, \<open>round_half_even\<close>, \<open>fl\<close> and \<open>round_to\<close>: the rules that evaluate
  a rounding at a given number, monotonicity, and the relative error bound \<open>2^-p\<close> of a
  rounding to \<open>p\<close> bits.
\<close>

lemma binexp_ge1:
  fixes x :: rat
  assumes "1 \<le> x"
  shows "2 ^ nat (bitlen \<lfloor>x\<rfloor> - 1) \<le> x \<and> x < 2 ^ nat (bitlen \<lfloor>x\<rfloor>) \<and> 1 \<le> bitlen \<lfloor>x\<rfloor>"
proof -
  let ?n = "\<lfloor>x\<rfloor>"
  from assms have n: "0 < ?n" by simp
  from bitlen_bounds [OF n] have lo: "2 ^ nat (bitlen ?n - 1) \<le> ?n" and hi: "?n < 2 ^ nat (bitlen ?n)"
    by auto
  have b1: "1 \<le> bitlen ?n" using n by (simp add: bitlen_alt_def)
  have "(of_int (2 ^ nat (bitlen ?n - 1)) :: rat) \<le> of_int ?n" using lo by (simp only: of_int_le_iff)
  also have "\<dots> \<le> x" by (rule of_int_floor_le)
  finally have l: "(2::rat) ^ nat (bitlen ?n - 1) \<le> x" by simp
  from hi have "?n + 1 \<le> 2 ^ nat (bitlen ?n)" by simp
  then have "of_int (?n + 1) \<le> (of_int (2 ^ nat (bitlen ?n)) :: rat)" by (simp only: of_int_le_iff)
  moreover have "x < of_int (?n + 1)" using floor_correct [of x] by simp
  ultimately have "x < (of_int (2 ^ nat (bitlen ?n)) :: rat)" by (rule less_le_trans[rotated])
  then have u: "x < 2 ^ nat (bitlen ?n)" by simp
  from l u b1 show ?thesis by blast
qed

lemma binexp_lt1:
  fixes x :: rat
  assumes "0 < x" and "x < 1"
  shows "1 / 2 ^ nat (bitlen (\<lceil>1 / x\<rceil> - 1)) \<le> x
     \<and> x < 1 / 2 ^ nat (bitlen (\<lceil>1 / x\<rceil> - 1) - 1)
     \<and> 1 \<le> bitlen (\<lceil>1 / x\<rceil> - 1)"
proof -
  let ?y = "1 / x"
  let ?c = "\<lceil>?y\<rceil>"
  let ?b = "bitlen (?c - 1)"
  from assms have y: "1 < ?y" by simp
  have yc: "?y \<le> of_int ?c" by (rule le_of_int_ceiling)
  have cy: "of_int (?c - 1) < ?y" using ceiling_correct [of ?y] by simp
  from y yc have "1 < (of_int ?c :: rat)" by (rule less_le_trans)
  then have c: "0 < ?c - 1" by simp
  from bitlen_bounds [OF c] have lo: "2 ^ nat (?b - 1) \<le> ?c - 1" and hi: "?c - 1 < 2 ^ nat ?b"
    by auto
  have b1: "1 \<le> ?b" using c by (simp add: bitlen_alt_def)
  from hi have "?c \<le> 2 ^ nat ?b" by simp
  then have "of_int ?c \<le> (of_int (2 ^ nat ?b) :: rat)" by (simp only: of_int_le_iff)
  with yc have "?y \<le> of_int (2 ^ nat ?b)" by (rule order_trans)
  then have "?y \<le> 2 ^ nat ?b" by simp
  with assms(1) have "1 \<le> 2 ^ nat ?b * x" by (simp add: pos_divide_le_eq)
  then have l: "1 / 2 ^ nat ?b \<le> x" by (simp add: pos_divide_le_eq mult.commute)
  have "(of_int (2 ^ nat (?b - 1)) :: rat) \<le> of_int (?c - 1)" using lo by (simp only: of_int_le_iff)
  then have "(of_int (2 ^ nat (?b - 1)) :: rat) < ?y" using cy by (rule le_less_trans)
  then have "2 ^ nat (?b - 1) < ?y" by simp
  with assms(1) have "2 ^ nat (?b - 1) * x < 1" by (simp add: pos_less_divide_eq)
  then have u: "x < 1 / 2 ^ nat (?b - 1)" by (simp add: pos_less_divide_eq mult.commute)
  from l u b1 show ?thesis by blast
qed

lemma binexp_bounds:
  assumes "0 < x"
  shows "pow2 (binexp x) \<le> x \<and> x < pow2 (binexp x + 1)"
proof (cases "1 \<le> x")
  case True
  from binexp_ge1 [OF True] True show ?thesis
    by (simp add: binexp_def pow2_def)
next
  case False
  then have lt: "x < 1" by simp
  let ?b = "bitlen (\<lceil>1 / x\<rceil> - 1)"
  from binexp_lt1 [OF assms lt] have
    l: "1 / 2 ^ nat ?b \<le> x" and u: "x < 1 / 2 ^ nat (?b - 1)" and b1: "1 \<le> ?b"
    by blast+
  have e: "binexp x = - ?b" using False by (simp add: binexp_def)
  have lo: "pow2 (- ?b) = 1 / 2 ^ nat ?b" using b1 by (simp add: pow2_def)
  have hi: "pow2 (- ?b + 1) = 1 / 2 ^ nat (?b - 1)"
  proof (cases "?b = 1")
    case True
    then show ?thesis by (simp add: pow2_def)
  next
    case False
    with b1 have "1 < ?b" by simp
    then have "\<not> 0 \<le> - ?b + 1" "nat (- (- ?b + 1)) = nat (?b - 1)" by simp_all
    then show ?thesis by (simp only: pow2_def if_False)
  qed
  from l u show ?thesis unfolding e lo hi by blast
qed

lemma round_half_even_near: "\<bar>of_int (round_half_even y) - y\<bar> \<le> 1 / 2"
proof -
  have "of_int \<lfloor>y\<rfloor> \<le> y" "y < of_int \<lfloor>y\<rfloor> + 1" using floor_correct [of y] by simp_all
  then show ?thesis by (auto simp: round_half_even_def Let_def abs_le_iff)
qed

lemma pow2_pos: "0 < pow2 e"
  by (simp add: pow2_def)

lemma fl_near:
  assumes "0 < x"
  shows "\<bar>fl x - x\<bar> \<le> pow2 (binexp x - 52) / 2"
proof -
  let ?u = "pow2 (binexp x - 52)"
  let ?m = "round_half_even (x / ?u)"
  have u: "0 < ?u" by (rule pow2_pos)
  from assms have f: "fl x = of_int ?m * ?u" by (simp add: fl_def Let_def)
  have "\<bar>of_int ?m - x / ?u\<bar> \<le> 1 / 2" by (rule round_half_even_near)
  then have "\<bar>of_int ?m - x / ?u\<bar> * ?u \<le> 1 / 2 * ?u" using u by (intro mult_right_mono) auto
  moreover have "\<bar>of_int ?m - x / ?u\<bar> * ?u = \<bar>of_int ?m * ?u - x\<bar>"
  proof -
    have "\<bar>of_int ?m - x / ?u\<bar> * ?u = \<bar>(of_int ?m - x / ?u) * ?u\<bar>"
      using u by (simp add: abs_mult)
    also have "(of_int ?m - x / ?u) * ?u = of_int ?m * ?u - x"
      using u by (simp add: left_diff_distrib)
    finally show ?thesis .
  qed
  ultimately show ?thesis unfolding f by simp
qed

lemma round_half_even_eq:
  assumes "of_int m - 1 / 2 < x" and "x < of_int m + 1 / 2"
  shows "round_half_even x = m"
proof (cases "of_int m \<le> x")
  case True
  with assms(2) have "\<lfloor>x\<rfloor> = m" by (intro floor_unique) auto
  with assms(2) show ?thesis by (simp add: round_half_even_def Let_def)
next
  case False
  with assms(1) have f: "\<lfloor>x\<rfloor> = m - 1" by (intro floor_unique) auto
  from assms(1) have "1 / 2 < x - of_int (m - 1)" by simp
  with f show ?thesis by (simp add: round_half_even_def Let_def)
qed

lemma fl_eval:
  assumes "0 < x" and "binexp x = e"
    and "of_int m - 1 / 2 < x / pow2 (e - 52)" and "x / pow2 (e - 52) < of_int m + 1 / 2"
  shows "fl x = of_int m * pow2 (e - 52)"
  using assms round_half_even_eq [OF assms(3,4)] by (simp add: fl_def Let_def)

lemma trunc_eval: "of_int z \<le> x \<Longrightarrow> x < of_int z + 1 \<Longrightarrow> 0 \<le> z \<Longrightarrow> trunc x = z"
  by (simp add: trunc_def floor_unique)

lemma pow2_powi: "pow2 e = 2 powi e"
  by (simp add: pow2_def power_int_def power_one_over inverse_eq_divide)

lemma pow2_add: "pow2 (a + b) = pow2 a * pow2 b"
  by (simp add: pow2_powi power_int_add)

lemma pow2_diff: "pow2 (a - b) = pow2 a / pow2 b"
  by (simp add: pow2_powi power_int_diff)

lemma pow2_nat: "pow2 (int n) = 2 ^ n"
  by (simp add: pow2_def)

lemma pow2_mono: "a \<le> b \<Longrightarrow> pow2 a \<le> pow2 b"
  by (simp add: pow2_powi power_int_increasing)

lemma pow2_less_imp: "pow2 a < pow2 b \<Longrightarrow> a < b"
proof (rule ccontr)
  assume "pow2 a < pow2 b" and "\<not> a < b"
  then have "pow2 b \<le> pow2 a" by (intro pow2_mono) simp
  with \<open>pow2 a < pow2 b\<close> show False by simp
qed

lemma binexp_mono:
  assumes "0 < x" and "x \<le> y"
  shows "binexp x \<le> binexp y"
proof -
  from assms have y: "0 < y" by simp
  from binexp_bounds [OF assms(1)] have "pow2 (binexp x) \<le> x" by simp
  also note assms(2)
  also from binexp_bounds [OF y] have "y < pow2 (binexp y + 1)" by simp
  finally have "binexp x < binexp y + 1" by (rule pow2_less_imp)
  then show ?thesis by simp
qed

lemma round_half_even_mono:
  assumes "x \<le> y"
  shows "round_half_even x \<le> round_half_even y"
proof (rule ccontr)
  assume "\<not> round_half_even x \<le> round_half_even y"
  then have lt: "round_half_even y + 1 \<le> round_half_even x" by simp
  then have "(of_int (round_half_even y + 1) :: rat) \<le> of_int (round_half_even x)"
    by (simp only: of_int_le_iff)
  then have l: "(of_int (round_half_even y) :: rat) + 1 \<le> of_int (round_half_even x)" by simp
  from round_half_even_near [of x] have ux: "of_int (round_half_even x) \<le> x + 1 / 2"
    by linarith
  from round_half_even_near [of y] have ly: "y - 1 / 2 \<le> of_int (round_half_even y)"
    by linarith
  from l ux ly assms have "x = y" by linarith
  with lt show False by simp
qed

lemma round_half_even_of_int: "round_half_even (of_int z) = z"
  by (rule round_half_even_eq) simp_all

lemma round_to_pos:
  "0 < x \<Longrightarrow> round_to p x
     = of_int (round_half_even (x / pow2 (binexp x + 1 - int p))) * pow2 (binexp x + 1 - int p)"
  by (simp add: round_to_def Let_def)

lemma fl_round_to: "fl x = round_to 53 x"
  by (simp add: fl_def round_to_def Let_def)

lemma pow2_unit:
  assumes "1 \<le> p"
  shows "pow2 e = 2 ^ (p - 1) * pow2 (e + 1 - int p)"
    and "pow2 (e + 1) = 2 ^ p * pow2 (e + 1 - int p)"
proof -
  have "pow2 e = pow2 (int (p - 1) + (e + 1 - int p))" using assms by (simp add: of_nat_diff)
  then show "pow2 e = 2 ^ (p - 1) * pow2 (e + 1 - int p)"
    by (simp only: pow2_add pow2_nat)
  have "pow2 (e + 1) = pow2 (int p + (e + 1 - int p))" by simp
  then show "pow2 (e + 1) = 2 ^ p * pow2 (e + 1 - int p)"
    by (simp only: pow2_add pow2_nat)
qed

lemma round_to_bounds:
  assumes "0 < x" and "1 \<le> p"
  shows "pow2 (binexp x) \<le> round_to p x \<and> round_to p x \<le> pow2 (binexp x + 1)"
proof -
  let ?u = "pow2 (binexp x + 1 - int p)"
  have u: "0 < ?u" by (rule pow2_pos)
  from binexp_bounds [OF assms(1)] have lo: "pow2 (binexp x) \<le> x" and hi: "x < pow2 (binexp x + 1)"
    by simp_all
  from lo have "2 ^ (p - 1) * ?u \<le> x" by (simp only: pow2_unit(1) [OF assms(2), symmetric])
  then have "of_int (2 ^ (p - 1)) \<le> x / ?u" using u by (simp add: pos_le_divide_eq)
  then have "round_half_even (of_int (2 ^ (p - 1))) \<le> round_half_even (x / ?u)"
    by (rule round_half_even_mono)
  then have "(of_int (2 ^ (p - 1)) :: rat) \<le> of_int (round_half_even (x / ?u))"
    by (simp only: round_half_even_of_int of_int_le_iff)
  then have "of_int (2 ^ (p - 1)) * ?u \<le> of_int (round_half_even (x / ?u)) * ?u"
    using u by (intro mult_right_mono) simp_all
  then have l: "pow2 (binexp x) \<le> round_to p x"
    using assms(1) pow2_unit(1) [OF assms(2), of "binexp x"] by (simp add: round_to_pos)
  from hi have "x \<le> pow2 (binexp x + 1)" by simp
  then have "x \<le> 2 ^ p * ?u" by (simp only: pow2_unit(2) [OF assms(2), symmetric])
  then have "x / ?u \<le> of_int (2 ^ p)" using u by (simp add: pos_divide_le_eq)
  then have "round_half_even (x / ?u) \<le> round_half_even (of_int (2 ^ p))"
    by (rule round_half_even_mono)
  then have "(of_int (round_half_even (x / ?u)) :: rat) \<le> of_int (2 ^ p)"
    by (simp only: round_half_even_of_int of_int_le_iff)
  then have "of_int (round_half_even (x / ?u)) * ?u \<le> of_int (2 ^ p) * ?u"
    using u by (intro mult_right_mono) simp_all
  then have h: "round_to p x \<le> pow2 (binexp x + 1)"
    using assms(1) pow2_unit(2) [OF assms(2), of "binexp x"] by (simp add: round_to_pos)
  from l h show ?thesis by blast
qed

lemma round_to_nonneg: "0 \<le> x \<Longrightarrow> 1 \<le> p \<Longrightarrow> 0 \<le> round_to p x"
proof (cases "x = 0")
  case True
  then show ?thesis by (simp add: round_to_def)
next
  case False
  assume "0 \<le> x" "1 \<le> p"
  with False have "0 < x" by simp
  from round_to_bounds [OF this \<open>1 \<le> p\<close>] pow2_pos [of "binexp x"] show ?thesis by linarith
qed

lemma round_to_mono:
  assumes "0 \<le> x" and "x \<le> y" and "1 \<le> p"
  shows "round_to p x \<le> round_to p y"
proof (cases "x = 0")
  case True
  from assms have "0 \<le> y" by simp
  from round_to_nonneg [OF this assms(3)] True show ?thesis by (simp add: round_to_def)
next
  case False
  with assms have x: "0 < x" and y: "0 < y" by simp_all
  from binexp_mono [OF x assms(2)] have e: "binexp x \<le> binexp y" .
  show ?thesis
  proof (cases "binexp x = binexp y")
    case True
    let ?u = "pow2 (binexp x + 1 - int p)"
    have u: "0 < ?u" by (rule pow2_pos)
    from assms(2) u have "x / ?u \<le> y / ?u" by (simp add: divide_right_mono)
    then have "round_half_even (x / ?u) \<le> round_half_even (y / ?u)" by (rule round_half_even_mono)
    then have "(of_int (round_half_even (x / ?u)) :: rat) \<le> of_int (round_half_even (y / ?u))"
      by (simp only: of_int_le_iff)
    then have "of_int (round_half_even (x / ?u)) * ?u \<le> of_int (round_half_even (y / ?u)) * ?u"
      using u by (intro mult_right_mono) simp_all
    then show ?thesis using x y True by (simp add: round_to_pos)
  next
    case False
    with e have "binexp x + 1 \<le> binexp y" by simp
    then have "pow2 (binexp x + 1) \<le> pow2 (binexp y)" by (rule pow2_mono)
    with round_to_bounds [OF x assms(3)] round_to_bounds [OF y assms(3)] show ?thesis by linarith
  qed
qed

lemma round_to_rel:
  assumes "0 \<le> x" and "1 \<le> p"
  shows "\<bar>round_to p x - x\<bar> \<le> x / 2 ^ p"
proof (cases "x = 0")
  case True
  then show ?thesis by (simp add: round_to_def)
next
  case False
  with assms have x: "0 < x" by simp
  let ?u = "pow2 (binexp x + 1 - int p)"
  let ?m = "round_half_even (x / ?u)"
  have u: "0 < ?u" by (rule pow2_pos)
  have "\<bar>of_int ?m - x / ?u\<bar> \<le> 1 / 2" by (rule round_half_even_near)
  then have "\<bar>of_int ?m - x / ?u\<bar> * ?u \<le> 1 / 2 * ?u" using u by (intro mult_right_mono) auto
  moreover have "\<bar>of_int ?m - x / ?u\<bar> * ?u = \<bar>of_int ?m * ?u - x\<bar>"
  proof -
    have "\<bar>of_int ?m - x / ?u\<bar> * ?u = \<bar>(of_int ?m - x / ?u) * ?u\<bar>"
      using u by (simp add: abs_mult)
    also have "(of_int ?m - x / ?u) * ?u = of_int ?m * ?u - x"
      using u by (simp add: left_diff_distrib)
    finally show ?thesis .
  qed
  ultimately have near: "\<bar>round_to p x - x\<bar> \<le> ?u / 2" using x by (simp add: round_to_pos)
  from binexp_bounds [OF x] have "pow2 (binexp x + 1) \<le> 2 * x"
    using pow2_add [of "binexp x" 1] by (simp add: pow2_def)
  then have "2 ^ p * ?u \<le> 2 * x" by (simp only: pow2_unit(2) [OF assms(2), symmetric])
  then have "?u \<le> 2 * x / 2 ^ p" by (simp add: pos_le_divide_eq mult.commute)
  with near show ?thesis by simp
qed

lemma round_to_eval:
  assumes "0 < x" and "binexp x = e"
    and "of_int m - 1 / 2 < x / pow2 (e + 1 - int p)" and "x / pow2 (e + 1 - int p) < of_int m + 1 / 2"
  shows "round_to p x = of_int m * pow2 (e + 1 - int p)"
  using assms round_half_even_eq [OF assms(3,4)] by (simp add: round_to_def Let_def)

section \<open>Properties of the accuracy scorer\<close>

lemma count_true_append: "count_true (xs @ ys) = count_true xs + count_true ys"
  by (simp add: count_true_def)

lemma count_true_take_mono:
  assumes "a \<le> b"
  shows "count_true (take a xs) \<le> count_true (take b xs)"
proof -
  from assms obtain d where b: "b = a + d" using le_Suc_ex by blast
  show ?thesis unfolding b by (simp add: take_add count_true_append)
qed

lemma py_stop_mono: "0 \<le> k \<Longrightarrow> k \<le> k' \<Longrightarrow> py_stop k n \<le> py_stop k' n"
  by (auto simp: py_stop_def min_def)

lemma count_true_rank:
  "count_true [map f [0..<N]] = card {n. n < N \<and> f n}"
proof -
  have "{i. i < N \<and> map f [0..<N] ! i} = {n. n < N \<and> f n}" by auto
  moreover have "count_true [map f [0..<N]] = length (filter (\<lambda>b. b) (map f [0..<N]))"
    unfolding count_true_def by simp
  ultimately show ?thesis by (simp only: length_filter_conv_card length_map length_upt diff_zero)
qed

lemma count_true_ranks:
  fixes P :: "nat \<Rightarrow> nat list" and t :: "nat \<Rightarrow> int"
  assumes "\<And>n. n < N \<Longrightarrow> distinct (P n)" and "\<And>n. n < N \<Longrightarrow> length (P n) = m"
  shows "K \<le> m \<Longrightarrow>
     count_true (take K (map (\<lambda>j. map (\<lambda>n. int (P n ! j) = t n) [0..<N]) [0..<m]))
       = card {n. n < N \<and> t n \<in> int ` set (take K (P n))}"
proof (induction K)
  case 0
  then show ?case by (simp add: count_true_def)
next
  case (Suc K)
  let ?rows = "map (\<lambda>j. map (\<lambda>n. int (P n ! j) = t n) [0..<N]) [0..<m]"
  let ?A = "{n. n < N \<and> t n \<in> int ` set (take K (P n))}"
  let ?B = "{n. n < N \<and> int (P n ! K) = t n}"
  from Suc.prems have K: "K < m" by simp
  then have "take (Suc K) ?rows = take K ?rows @ [?rows ! K]"
    by (simp add: take_Suc_conv_app_nth)
  then have "count_true (take (Suc K) ?rows) = count_true (take K ?rows) + count_true [?rows ! K]"
    by (simp add: count_true_append)
  also have "count_true [?rows ! K] = card ?B"
  proof -
    have "?rows ! K = map (\<lambda>n. int (P n ! K) = t n) [0..<N]" using K by simp
    then show ?thesis by (simp only: count_true_rank)
  qed
  also have "count_true (take K ?rows) = card ?A"
    using Suc.IH K by simp
  finally have cnt: "count_true (take (Suc K) ?rows) = card ?A + card ?B" .
  have disj: "?A \<inter> ?B = {}"
  proof (rule ccontr)
    assume "?A \<inter> ?B \<noteq> {}"
    then obtain n where n: "n < N" "t n \<in> int ` set (take K (P n))" "int (P n ! K) = t n"
      by blast
    then have "P n ! K \<in> set (take K (P n))" by auto
    then obtain i where i: "i < K" "i < length (P n)" "P n ! i = P n ! K"
      by (auto simp: in_set_conv_nth)
    with assms(1) [OF n(1)] assms(2) [OF n(1)] K show False
      by (auto simp: nth_eq_iff_index_eq)
  qed
  have un: "{n. n < N \<and> t n \<in> int ` set (take (Suc K) (P n))} = ?A \<union> ?B"
  proof -
    have "\<And>n. n < N \<Longrightarrow> take (Suc K) (P n) = take K (P n) @ [P n ! K]"
      using K assms(2) by (simp add: take_Suc_conv_app_nth)
    then show ?thesis by auto
  qed
  have "card (?A \<union> ?B) = card ?A + card ?B"
    using disj by (intro card_Un_disjoint) auto
  with cnt un show ?case by simp
qed

lemma accuracy_score_returns:
  assumes "accuracy_score tk output target top_k = Inr rs"
  shows "top_k \<noteq> [] \<and> 0 \<le> Max (set top_k)
     \<and> (\<forall>row\<in>set output. Max (set top_k) \<le> int (length row))
     \<and> target \<noteq> []
     \<and> (\<exists>tgt. expand_target target (length output) = Inr tgt
          \<and> rs = map (\<lambda>k. score_of (count_true
                     (take (py_stop k (nat (Max (set top_k))))
                        (map (\<lambda>row. map2 (\<lambda>p t. int p = t) row tgt)
                           (transpose01 (nat (Max (set top_k)))
                              (map (\<lambda>row. tk row (nat (Max (set top_k)))) output)))))
                   (length target)) top_k)"
proof -
  define mk where "mk = Max (set top_k)"
  have "top_k \<noteq> [] \<and> 0 \<le> mk
     \<and> (\<forall>row\<in>set output. mk \<le> int (length row))
     \<and> target \<noteq> []
     \<and> (\<exists>tgt. expand_target target (length output) = Inr tgt
          \<and> rs = map (\<lambda>k. score_of (count_true
                     (take (py_stop k (nat mk))
                        (map (\<lambda>row. map2 (\<lambda>p t. int p = t) row tgt)
                           (transpose01 (nat mk)
                              (map (\<lambda>row. tk row (nat mk)) output)))))
                   (length target)) top_k)"
    using assms unfolding accuracy_score_def Let_def mk_def [symmetric] topk_rows_def
    by (auto simp: transpose01_def split: if_splits sum.splits)
  then show ?thesis unfolding mk_def .
qed

lemma fl_nonneg: "0 \<le> x \<Longrightarrow> 0 \<le> fl x"
  by (simp add: fl_round_to round_to_nonneg)

lemma fl32_nonneg: "0 \<le> x \<Longrightarrow> 0 \<le> fl32 x"
  by (simp add: fl32_def round_to_nonneg)

lemma fl32_mono: "0 \<le> x \<Longrightarrow> x \<le> y \<Longrightarrow> fl32 x \<le> fl32 y"
  by (simp add: fl32_def round_to_mono)

lemma score_of_mono:
  assumes "a \<le> b"
  shows "score_of a n \<le> score_of b n"
proof -
  let ?c = "fl32 (fl (100 / of_nat n))"
  have c: "0 \<le> ?c" by (intro fl32_nonneg fl_nonneg) simp
  have "fl32 (of_nat a) \<le> fl32 (of_nat b)" using assms by (intro fl32_mono) simp_all
  then have "fl32 (of_nat a) * ?c \<le> fl32 (of_nat b) * ?c" using c by (rule mult_right_mono)
  moreover have "0 \<le> fl32 (of_nat a)" by (rule fl32_nonneg) simp
  then have "0 \<le> fl32 (of_nat a) * ?c" using c by (rule mult_nonneg_nonneg)
  ultimately show ?thesis unfolding score_of_def by (intro fl32_mono)
qed

text \<open>
  Claim C4. Within one call of \<open>accuracy_score\<close>, for requested values
  \<open>1 \<le> K \<le> K'\<close> the top-\<open>K'\<close> score is at least the top-\<open>K\<close> score. The call returns one
  score per requested value.
\<close>

theorem accuracy_score_monotone:
  assumes "accuracy_score tk output target top_k = Inr rs"
    and "i < length top_k" and "j < length top_k"
    and "1 \<le> top_k ! i" and "top_k ! i \<le> top_k ! j"
  shows "length rs = length top_k \<and> rs ! i \<le> rs ! j"
proof -
  let ?m = "nat (Max (set top_k))"
  from accuracy_score_returns [OF assms(1)] obtain tgt where
    rs: "rs = map (\<lambda>k. score_of (count_true
                     (take (py_stop k ?m)
                        (map (\<lambda>row. map2 (\<lambda>p t. int p = t) row tgt)
                           (transpose01 ?m (map (\<lambda>row. tk row ?m) output)))))
                   (length target)) top_k"
    by blast
  let ?correct = "map (\<lambda>row. map2 (\<lambda>p t. int p = t) row tgt)
                    (transpose01 ?m (map (\<lambda>row. tk row ?m) output))"
  have "py_stop (top_k ! i) ?m \<le> py_stop (top_k ! j) ?m"
    using assms(4,5) by (intro py_stop_mono) auto
  then have "count_true (take (py_stop (top_k ! i) ?m) ?correct)
             \<le> count_true (take (py_stop (top_k ! j) ?m) ?correct)"
    by (rule count_true_take_mono)
  then have "score_of (count_true (take (py_stop (top_k ! i) ?m) ?correct)) (length target)
             \<le> score_of (count_true (take (py_stop (top_k ! j) ?m) ?correct)) (length target)"
    by (rule score_of_mono)
  then show ?thesis using rs assms(2,3) by simp
qed

lemma sample_topk_rows:
  "sample_topk [1, 3, 2] 3 = [1, 2, 0]" "sample_topk [5, 4, 0] 3 = [0, 1, 2]"
  "sample_topk [2, 1, 0] 3 = [0, 1, 2]"
  by code_simp+

lemma sample_accuracy:
  "accuracy_score sample_topk sample_scores [1, 2, 0] [1, 2, 3]
     = Inr [score_of 2 3, score_of 2 3, score_of 3 3]"
proof -
  have mk: "Max (set [1, 2, 3 :: int]) = 3" by simp
  have tr: "topk_rows sample_topk sample_scores 3 = Inr [[1, 2, 0], [0, 1, 2], [0, 1, 2]]"
    by (simp add: topk_rows_def sample_scores_def sample_topk_rows)
  have tp: "transpose01 (nat 3) [[1, 2, 0], [0, 1, 2], [0, 1, 2 :: nat]]
              = [[1, 0, 0], [2, 1, 1], [0, 2, 2]]"
    by code_simp
  have ex: "expand_target [1, 2, 0] (length sample_scores) = Inr [1, 2, 0]"
    by (simp add: expand_target_def sample_scores_def)
  have co: "map (\<lambda>row. map2 (\<lambda>p t. int p = t) row [1, 2, 0]) [[1, 0, 0], [2, 1, 1], [0, 2, 2 :: nat]]
              = [[True, False, True], [False, False, False], [False, True, False]]"
    by simp
  have c1: "count_true (take (py_stop 1 (length [[True, False, True], [False, False, False], [False, True, False]]))
              [[True, False, True], [False, False, False], [False, True, False]]) = 2"
    and c2: "count_true (take (py_stop 2 (length [[True, False, True], [False, False, False], [False, True, False]]))
              [[True, False, True], [False, False, False], [False, True, False]]) = 2"
    and c3: "count_true (take (py_stop 3 (length [[True, False, True], [False, False, False], [False, True, False]]))
              [[True, False, True], [False, False, False], [False, True, False]]) = 3"
    by code_simp+
  have n: "length [1, 2, 0 :: int] = 3" by simp
  show ?thesis
    unfolding accuracy_score_def mk Let_def tr sum.case tp ex co n
    by (simp only: list.map c1 c2 c3) simp
qed

theorem accuracy_score_monotone_witness:
  "accuracy_score sample_topk sample_scores [1, 2, 0] [1, 2, 3]
     = Inr [score_of 2 3, score_of 2 3, score_of 3 3]
   \<and> (0::nat) < length [1, 2, 3 :: int] \<and> (2::nat) < length [1, 2, 3 :: int]
   \<and> (1::int) \<le> [1, 2, 3] ! 0 \<and> [1, 2, 3 :: int] ! 0 \<le> [1, 2, 3] ! 2
   \<and> length [score_of 2 3, score_of 2 3, score_of 3 3] = length [1, 2, 3 :: int]
   \<and> [score_of 2 3, score_of 2 3, score_of 3 3] ! 0 \<le> [score_of 2 3, score_of 2 3, score_of 3 3] ! 2"
proof -
  have e: "accuracy_score sample_topk sample_scores [1, 2, 0] [1, 2, 3]
     = Inr [score_of 2 3, score_of 2 3, score_of 3 3]"
    by (rule sample_accuracy)
  have i: "(0::nat) < length [1, 2, 3 :: int]" "(2::nat) < length [1, 2, 3 :: int]"
    "(1::int) \<le> [1, 2, 3] ! 0" "[1, 2, 3 :: int] ! 0 \<le> [1, 2, 3] ! 2" by simp_all
  from accuracy_score_monotone [OF e i] e i show ?thesis by blast
qed

text \<open>
  When \<open>topk\<close> keeps its contract on every row, the number of \<open>True\<close> entries in the first
  \<open>K\<close> ranks is the number of examples whose label is among the first \<open>K\<close> selected indices.
\<close>

lemma is_topk_iff:
  "is_topk row k idx \<longleftrightarrow>
     length idx = k \<and> distinct idx \<and> (\<forall>i\<in>set idx. i < length row)
     \<and> sorted_wrt (\<lambda>a b. b \<le> a) (map (\<lambda>i. row ! i) idx)
     \<and> (\<forall>j<length row. j \<in> set idx \<or> (\<forall>i\<in>set idx. row ! j \<le> row ! i))"
  by (auto simp: is_topk_def list_all_iff)

lemma is_topk_take:
  assumes "is_topk row m idx" and "k \<le> m"
  shows "is_topk row k (take k idx)"
proof -
  from assms(1) have len: "length idx = m" and dist: "distinct idx"
    and rng: "\<forall>i\<in>set idx. i < length row"
    and srt: "sorted_wrt (\<lambda>a b. b \<le> a) (map (\<lambda>i. row ! i) idx)"
    and out: "\<forall>j<length row. j \<in> set idx \<or> (\<forall>i\<in>set idx. row ! j \<le> row ! i)"
    by (simp_all add: is_topk_iff)
  have sub: "set (take k idx) \<subseteq> set idx" by (rule set_take_subset)
  have "sorted_wrt (\<lambda>a b. b \<le> a) (take k (map (\<lambda>i. row ! i) idx))"
    using srt by (rule sorted_wrt_take)
  then have s: "sorted_wrt (\<lambda>a b. b \<le> a) (map (\<lambda>i. row ! i) (take k idx))"
    by (simp add: take_map)
  have o: "\<forall>j<length row. j \<in> set (take k idx) \<or> (\<forall>i\<in>set (take k idx). row ! j \<le> row ! i)"
  proof (intro allI impI)
    fix j assume j: "j < length row"
    show "j \<in> set (take k idx) \<or> (\<forall>i\<in>set (take k idx). row ! j \<le> row ! i)"
    proof (cases "j \<in> set idx")
      case False
      with out j have "\<forall>i\<in>set idx. row ! j \<le> row ! i" by blast
      with sub show ?thesis by blast
    next
      case True
      then obtain b where b: "b < length idx" "idx ! b = j" by (auto simp: in_set_conv_nth)
      show ?thesis
      proof (cases "b < k")
        case True
        with b have "j \<in> set (take k idx)" by (auto simp: in_set_conv_nth intro!: exI [of _ b])
        then show ?thesis by blast
      next
        case False
        have "\<forall>i\<in>set (take k idx). row ! j \<le> row ! i"
        proof
          fix i assume "i \<in> set (take k idx)"
          then obtain a where a: "a < k" "a < length idx" "idx ! a = i"
            by (auto simp: in_set_conv_nth)
          with False have ab: "a < b" by simp
          from srt ab b(1) have "map (\<lambda>i. row ! i) idx ! b \<le> map (\<lambda>i. row ! i) idx ! a"
            by (simp add: sorted_wrt_iff_nth_less)
          with a b show "row ! j \<le> row ! i" by simp
        qed
        then show ?thesis by blast
      qed
    qed
  qed
  from len assms(2) dist rng sub s o show ?thesis
    by (auto simp: is_topk_iff)
qed

lemma correct_row:
  assumes "length target = length output"
  shows "map2 (\<lambda>p t. int p = t) (map (\<lambda>r. tk r m ! j) output) target
         = map (\<lambda>n. int (tk (output ! n) m ! j) = target ! n) [0..<length output]"
  using assms by (intro nth_equalityI) auto

lemma accuracy_score_hits:
  assumes ret: "accuracy_score tk output target top_k = Inr rs"
    and len: "length target = length output"
    and sel: "\<forall>row\<in>set output. is_topk row (nat (Max (set top_k))) (tk row (nat (Max (set top_k))))"
    and i: "i < length top_k"
    and k0: "0 \<le> top_k ! i"
  shows "rs ! i = score_of (card {n. n < length output
                    \<and> target ! n \<in> int ` set (take (nat (top_k ! i)) (tk (output ! n) (nat (Max (set top_k)))))})
                  (length output)"
proof -
  let ?m = "nat (Max (set top_k))"
  let ?N = "length output"
  let ?k = "nat (top_k ! i)"
  let ?P = "\<lambda>n. tk (output ! n) ?m"
  let ?rows = "map (\<lambda>j. map (\<lambda>n. int (?P n ! j) = target ! n) [0..<?N]) [0..<?m]"
  from accuracy_score_returns [OF ret] obtain tgt where
    tgt: "expand_target target ?N = Inr tgt"
    and rs: "rs = map (\<lambda>k. score_of (count_true
                     (take (py_stop k ?m)
                        (map (\<lambda>row. map2 (\<lambda>p t. int p = t) row tgt)
                           (transpose01 ?m (map (\<lambda>row. tk row ?m) output)))))
                   (length target)) top_k"
    by blast
  from tgt len have tgt_eq: "tgt = target" by (simp add: expand_target_def)
  have rows: "map (\<lambda>row. map2 (\<lambda>p t. int p = t) row tgt)
                 (transpose01 ?m (map (\<lambda>row. tk row ?m) output)) = ?rows"
    by (simp add: tgt_eq transpose01_def comp_def correct_row [OF len])
  have kle: "top_k ! i \<le> Max (set top_k)" using i by simp
  with k0 have km: "?k \<le> ?m" by simp
  then have stop: "py_stop (top_k ! i) ?m = ?k" using k0 by (simp add: py_stop_def)
  have p: "\<And>n. n < ?N \<Longrightarrow> distinct (?P n) \<and> length (?P n) = ?m"
  proof -
    fix n assume "n < ?N"
    then have "output ! n \<in> set output" by simp
    with sel have "is_topk (output ! n) ?m (?P n)" by blast
    then show "distinct (?P n) \<and> length (?P n) = ?m" by (simp add: is_topk_iff)
  qed
  have "count_true (take ?k ?rows)
        = card {n. n < ?N \<and> target ! n \<in> int ` set (take ?k (?P n))}"
    using km by (intro count_true_ranks) (auto simp: p)
  moreover have "rs ! i = score_of (count_true (take ?k ?rows)) (length target)"
    using rs i rows stop by simp
  ultimately show ?thesis using len by simp
qed

lemma accuracy_score_total:
  assumes ne: "output \<noteq> []" and len: "length target = length output"
    and tk: "top_k \<noteq> []"
    and nonneg: "0 \<le> Max (set top_k)"
    and fit: "\<forall>row\<in>set output. Max (set top_k) \<le> int (length row)"
  shows "\<exists>rs. accuracy_score tk output target top_k = Inr rs"
proof -
  define mk where "mk = Max (set top_k)"
  from nonneg fit have "topk_rows tk output mk = Inr (map (\<lambda>row. tk row (nat mk)) output)"
    unfolding mk_def [symmetric] by (auto simp: topk_rows_def)
  moreover from len have "expand_target target (length output) = Inr target"
    by (simp add: expand_target_def)
  moreover from ne len have "length target \<noteq> 0" by simp
  ultimately show ?thesis
    using tk unfolding accuracy_score_def Let_def mk_def [symmetric] by simp
qed

text \<open>
  The score differs from \<open>hits * 100 / N\<close> by three roundings: of the quotient to a double,
  of that double to single precision, and of the product to single precision.
\<close>

lemma rel_round:
  assumes w: "0 \<le> w" and z: "0 \<le> z" and zw: "\<bar>z - w\<bar> \<le> a * w" and p: "1 \<le> p"
  shows "\<bar>round_to p z - w\<bar> \<le> (a + (1 + a) / 2 ^ p) * w"
proof -
  have "(1 + a) * w = w + a * w" by (simp add: algebra_simps)
  with zw have "z \<le> (1 + a) * w" by linarith
  then have "z / 2 ^ p \<le> (1 + a) * w / 2 ^ p" by (simp add: divide_right_mono)
  with round_to_rel [OF z p] have "\<bar>round_to p z - z\<bar> \<le> (1 + a) * w / 2 ^ p" by simp
  with zw have "\<bar>round_to p z - w\<bar> \<le> a * w + (1 + a) * w / 2 ^ p" by linarith
  also have "a * w + (1 + a) * w / 2 ^ p = (a + (1 + a) / 2 ^ p) * w"
    by (simp add: algebra_simps)
  finally show ?thesis .
qed

lemma rel_mult:
  fixes x y x' y' a b :: rat
  assumes x: "0 \<le> x" and y: "0 \<le> y"
    and xx: "\<bar>x' - x\<bar> \<le> a * x" and yy: "\<bar>y' - y\<bar> \<le> b * y"
    and a: "0 \<le> a" and b: "0 \<le> b"
  shows "\<bar>x' * y' - x * y\<bar> \<le> (a + b + a * b) * (x * y)"
proof -
  have split: "x' * y' - x * y = (x' - x) * y' + x * (y' - y)" by (simp add: algebra_simps)
  have bn: "0 \<le> b * y" using b y by simp
  have "(1 + b) * y = y + b * y" by (simp add: algebra_simps)
  with yy bn y have y': "\<bar>y'\<bar> \<le> (1 + b) * y" by linarith
  have ax: "0 \<le> a * x" using a x by simp
  have "\<bar>(x' - x) * y'\<bar> = \<bar>x' - x\<bar> * \<bar>y'\<bar>" by (rule abs_mult)
  also have "\<dots> \<le> (a * x) * ((1 + b) * y)"
    using xx y' ax by (intro mult_mono) simp_all
  finally have t1: "\<bar>(x' - x) * y'\<bar> \<le> (a * x) * ((1 + b) * y)" .
  have "\<bar>x * (y' - y)\<bar> = x * \<bar>y' - y\<bar>" using x by (simp add: abs_mult)
  also have "\<dots> \<le> x * (b * y)" using yy x by (rule mult_left_mono)
  finally have t2: "\<bar>x * (y' - y)\<bar> \<le> x * (b * y)" .
  have "\<bar>x' * y' - x * y\<bar> \<le> \<bar>(x' - x) * y'\<bar> + \<bar>x * (y' - y)\<bar>"
    unfolding split by (rule abs_triangle_ineq)
  with t1 t2 have "\<bar>x' * y' - x * y\<bar> \<le> (a * x) * ((1 + b) * y) + x * (b * y)" by linarith
  also have "(a * x) * ((1 + b) * y) + x * (b * y) = (a + b + a * b) * (x * y)"
    by (simp add: algebra_simps)
  finally show ?thesis .
qed

lemma score_of_error:
  "\<bar>score_of h n - of_nat h * 100 / of_nat n\<bar> \<le> (of_nat h * 100 / of_nat n) / 2 ^ 22"
proof -
  define c0 :: rat where "c0 = 100 / of_nat n"
  define hh :: rat where "hh = of_nat h"
  define a2 :: rat where "a2 = 1 / 2 ^ 53 + (1 + 1 / 2 ^ 53) / 2 ^ 24"
  define a3 :: rat where "a3 = 1 / 2 ^ 24"
  define a4 :: rat where "a4 = a3 + a2 + a3 * a2"
  define a5 :: rat where "a5 = a4 + (1 + a4) / 2 ^ 24"
  have c0: "0 \<le> c0" by (simp add: c0_def)
  have hh: "0 \<le> hh" by (simp add: hh_def)
  have "\<bar>c0 - c0\<bar> \<le> 0 * c0" by simp
  from rel_round [OF c0 c0 this, of 53]
  have c1: "\<bar>fl c0 - c0\<bar> \<le> (1 / 2 ^ 53) * c0" by (simp add: fl_round_to)
  have c1n: "0 \<le> fl c0" using c0 by (rule fl_nonneg)
  from rel_round [OF c0 c1n c1, of 24]
  have c2: "\<bar>fl32 (fl c0) - c0\<bar> \<le> a2 * c0" by (simp add: fl32_def a2_def)
  have c2n: "0 \<le> fl32 (fl c0)" using c1n by (rule fl32_nonneg)
  have "\<bar>hh - hh\<bar> \<le> 0 * hh" by simp
  from rel_round [OF hh hh this, of 24]
  have h1: "\<bar>fl32 hh - hh\<bar> \<le> a3 * hh" by (simp add: fl32_def a3_def)
  have h1n: "0 \<le> fl32 hh" using hh by (rule fl32_nonneg)
  have a2n: "0 \<le> a2" by (simp add: a2_def)
  have a3n: "0 \<le> a3" by (simp add: a3_def)
  from rel_mult [OF hh c0 h1 c2 a3n a2n]
  have pr: "\<bar>fl32 hh * fl32 (fl c0) - hh * c0\<bar> \<le> a4 * (hh * c0)" by (simp add: a4_def)
  have prn: "0 \<le> fl32 hh * fl32 (fl c0)" using h1n c2n by (rule mult_nonneg_nonneg)
  have w: "0 \<le> hh * c0" using hh c0 by (rule mult_nonneg_nonneg)
  from rel_round [OF w prn pr, of 24]
  have r: "\<bar>fl32 (fl32 hh * fl32 (fl c0)) - hh * c0\<bar> \<le> a5 * (hh * c0)"
    by (simp add: fl32_def a5_def)
  have "a5 \<le> 1 / 2 ^ 22" by (simp add: a5_def a4_def a3_def a2_def)
  then have "a5 * (hh * c0) \<le> (1 / 2 ^ 22) * (hh * c0)" using w by (rule mult_right_mono)
  with r have "\<bar>fl32 (fl32 hh * fl32 (fl c0)) - hh * c0\<bar> \<le> (hh * c0) / 2 ^ 22" by simp
  then show ?thesis by (simp add: score_of_def hh_def c0_def)
qed

lemma score_45: "score_of 45 45 = 13107201 / 131072"
proof -
  have b1: "binexp (100 / 45) = 1" by code_simp
  have "fl (100 / 45) = of_int 5003999585967218 * pow2 (1 - 52)"
    by (rule fl_eval [OF _ b1]) (simp_all add: pow2_def)
  then have c1: "fl (100 / 45) = 2501999792983609 / 1125899906842624" by (simp add: pow2_def)
  have b2: "binexp (2501999792983609 / 1125899906842624) = 1" by code_simp
  have "round_to 24 (2501999792983609 / 1125899906842624) = of_int 9320676 * pow2 (1 + 1 - int 24)"
    by (rule round_to_eval [OF _ b2]) (simp_all add: pow2_def)
  then have c2: "fl32 (2501999792983609 / 1125899906842624) = 2330169 / 1048576"
    by (simp add: pow2_def fl32_def)
  have b3: "binexp 45 = 5" by code_simp
  have "round_to 24 45 = of_int 11796480 * pow2 (5 + 1 - int 24)"
    by (rule round_to_eval [OF _ b3]) (simp_all add: pow2_def)
  then have h: "fl32 45 = 45" by (simp add: pow2_def fl32_def)
  have b4: "binexp (104857605 / 1048576) = 6" by code_simp
  have "round_to 24 (104857605 / 1048576) = of_int 13107201 * pow2 (6 + 1 - int 24)"
    by (rule round_to_eval [OF _ b4]) (simp_all add: pow2_def)
  then have r: "fl32 (104857605 / 1048576) = 13107201 / 131072" by (simp add: pow2_def fl32_def)
  have "score_of 45 45 = fl32 (fl32 45 * fl32 (fl (100 / 45)))" by (simp add: score_of_def)
  also have "\<dots> = fl32 (104857605 / 1048576)" unfolding c1 c2 h by simp
  finally show ?thesis using r by simp
qed

text \<open>
  Claim C5, as stated: for every requested \<open>K\<close> the call returns \<open>hits * 100 / N\<close>. For one
  row of three scores and \<open>K = 4\<close> the call raises RuntimeError, since \<open>topk\<close> cannot select
  four of three. For a batch of 45 rows that are all hits at \<open>K = 1\<close> the call returns the
  single-precision number \<open>13107201 / 131072 = 100.00000762939453\<close>, not 100: the factor
  \<open>100.0 / 45\<close> is rounded before the multiplication.
\<close>

theorem accuracy_score_percentage_counterexample:
  "accuracy_score sample_topk [[1, 3, 2]] [1] [4] = Inl RuntimeError
   \<and> accuracy_score sample_topk (replicate 45 [1]) (replicate 45 0) [1] = Inr [13107201 / 131072]
   \<and> (13107201 / 131072 :: rat) \<noteq> 45 * 100 / 45"
proof -
  have a: "accuracy_score sample_topk [[1, 3, 2]] [1] [4] = Inl RuntimeError"
    by (simp add: accuracy_score_def topk_rows_def)
  have t: "sample_topk [1] (Suc 0) = [0]" by (simp add: sample_topk_def)
  have "accuracy_score sample_topk (replicate 45 [1]) (replicate 45 0) [1] = Inr [score_of 45 45]"
    by (simp add: accuracy_score_def topk_rows_def transpose01_def expand_target_def
          py_stop_def count_true_def t)
  with a score_45 show ?thesis by simp
qed

text \<open>
  Claim C5, amended. For a non-empty batch of \<open>N\<close> score rows with \<open>N\<close> labels, requested
  values \<open>K\<close> that all lie between 0 and the length of every row, and a \<open>topk\<close> that keeps its
  contract on every row (the selected indices are distinct, in non-increasing order of score,
  and no index left out scores higher than a selected one; the order among equal scores is
  left open), \<open>accuracy_score\<close> returns. The first \<open>K\<close> selected indices of a row are
  \<open>K\<close> highest-scoring indices of it; with \<open>hits\<close> the number of examples whose label is
  among them, the score for \<open>K\<close> is the single-precision product of \<open>hits\<close> and the
  single-precision value of the double \<open>100.0 / N\<close>, and it differs from \<open>hits * 100 / N\<close>
  by at most the fraction \<open>2^-22\<close> of that number.
\<close>

theorem accuracy_score_percentage:
  assumes ne: "output \<noteq> []"
    and len: "length target = length output"
    and range: "\<forall>k\<in>set top_k. 0 \<le> k \<and> (\<forall>row\<in>set output. k \<le> int (length row))"
    and sel: "\<forall>row\<in>set output. is_topk row (nat (Max (set top_k))) (tk row (nat (Max (set top_k))))"
    and i: "i < length top_k"
  shows "\<exists>rs hits.
       accuracy_score tk output target top_k = Inr rs
     \<and> (\<forall>n<length output.
           is_topk (output ! n) (nat (top_k ! i))
             (take (nat (top_k ! i)) (tk (output ! n) (nat (Max (set top_k))))))
     \<and> hits = card {n. n < length output
                    \<and> target ! n \<in> int ` set (take (nat (top_k ! i)) (tk (output ! n) (nat (Max (set top_k)))))}
     \<and> rs ! i = fl32 (fl32 (of_nat hits) * fl32 (fl (100 / of_nat (length output))))
     \<and> \<bar>rs ! i - of_nat hits * 100 / of_nat (length output)\<bar>
           \<le> (of_nat hits * 100 / of_nat (length output)) / 2 ^ 22"
proof -
  let ?m = "nat (Max (set top_k))"
  let ?k = "nat (top_k ! i)"
  let ?hits = "card {n. n < length output \<and> target ! n \<in> int ` set (take ?k (tk (output ! n) ?m))}"
  from i have tk: "top_k \<noteq> []" by auto
  then have mx: "Max (set top_k) \<in> set top_k" by simp
  with range have "0 \<le> Max (set top_k)" "\<forall>row\<in>set output. Max (set top_k) \<le> int (length row)"
    by blast+
  from accuracy_score_total [OF ne len tk this] obtain rs where
    rs: "accuracy_score tk output target top_k = Inr rs" by blast
  from i range have k0: "0 \<le> top_k ! i" by simp
  have "top_k ! i \<le> Max (set top_k)" using i by simp
  with k0 have km: "?k \<le> ?m" by simp
  have top: "\<forall>n<length output. is_topk (output ! n) ?k (take ?k (tk (output ! n) ?m))"
  proof (intro allI impI)
    fix n assume "n < length output"
    then have "output ! n \<in> set output" by simp
    with sel have "is_topk (output ! n) ?m (tk (output ! n) ?m)" by blast
    then show "is_topk (output ! n) ?k (take ?k (tk (output ! n) ?m))"
      using km by (rule is_topk_take)
  qed
  from accuracy_score_hits [OF rs len sel i k0]
  have v: "rs ! i = score_of ?hits (length output)" .
  then have e: "rs ! i = fl32 (fl32 (of_nat ?hits) * fl32 (fl (100 / of_nat (length output))))"
    by (simp add: score_of_def)
  from v score_of_error [of ?hits "length output"]
  have b: "\<bar>rs ! i - of_nat ?hits * 100 / of_nat (length output)\<bar>
           \<le> (of_nat ?hits * 100 / of_nat (length output)) / 2 ^ 22"
    by simp
  from rs top e b show ?thesis by blast
qed

lemma hits_filter: "card {n. n < N \<and> P n} = length (filter P [0..<N])"
proof -
  have "{n. n < N \<and> P n} = set (filter P [0..<N])" by auto
  then have "card {n. n < N \<and> P n} = card (set (filter P [0..<N]))" by (rule arg_cong)
  also have "\<dots> = length (filter P [0..<N])" by (rule distinct_card) simp
  finally show ?thesis .
qed

lemma sample_selection:
  "\<forall>row\<in>set sample_scores. is_topk row (nat (Max (set [1, 2, 3]))) (sample_topk row (nat (Max (set [1, 2, 3]))))"
  by code_simp

lemma sample_hits:
  "card {n. n < length sample_scores
          \<and> [1, 2, 0] ! n \<in> int ` set (take (nat ([1, 2, 3] ! 1))
                                        (sample_topk (sample_scores ! n) (nat (Max (set [1, 2, 3])))))}
   = 2"
  unfolding hits_filter by code_simp

theorem accuracy_score_percentage_witness:
  "sample_scores \<noteq> [] \<and> length [1, 2, 0 :: int] = length sample_scores
   \<and> (1::nat) < length [1, 2, 3 :: int]
   \<and> (\<exists>rs. accuracy_score sample_topk sample_scores [1, 2, 0] [1, 2, 3] = Inr rs
         \<and> rs ! 1 = fl32 (fl32 2 * fl32 (fl (100 / 3)))
         \<and> \<bar>rs ! 1 - 200 / 3\<bar> \<le> (200 / 3) / 2 ^ 22)"
proof -
  have s: "sample_scores \<noteq> []" "length [1, 2, 0 :: int] = length sample_scores"
    by (simp_all add: sample_scores_def)
  have r: "\<forall>k\<in>set [1, 2, 3 :: int]. 0 \<le> k \<and> (\<forall>row\<in>set sample_scores. k \<le> int (length row))"
    by (simp add: sample_scores_def)
  have i: "(1::nat) < length [1, 2, 3 :: int]" by simp
  have n: "length sample_scores = 3" by (simp add: sample_scores_def)
  from accuracy_score_percentage
         [of sample_scores "[1, 2, 0]" "[1, 2, 3]" sample_topk 1, OF s r sample_selection i]
  obtain rs hits where
    ret: "accuracy_score sample_topk sample_scores [1, 2, 0] [1, 2, 3] = Inr rs"
    and h: "hits = card {n. n < length sample_scores
          \<and> [1, 2, 0] ! n \<in> int ` set (take (nat ([1, 2, 3] ! 1))
                                        (sample_topk (sample_scores ! n) (nat (Max (set [1, 2, 3])))))}"
    and e: "rs ! 1 = fl32 (fl32 (of_nat hits) * fl32 (fl (100 / of_nat (length sample_scores))))"
    and b: "\<bar>rs ! 1 - of_nat hits * 100 / of_nat (length sample_scores)\<bar>
           \<le> (of_nat hits * 100 / of_nat (length sample_scores)) / 2 ^ 22"
    by blast
  from h have h2: "hits = 2" by (simp only: sample_hits)
  from e b have "rs ! 1 = fl32 (fl32 2 * fl32 (fl (100 / 3)))
         \<and> \<bar>rs ! 1 - 200 / 3\<bar> \<le> (200 / 3) / 2 ^ 22"
    unfolding h2 n by simp
  with ret have "\<exists>rs. accuracy_score sample_topk sample_scores [1, 2, 0] [1, 2, 3] = Inr rs
         \<and> rs ! 1 = fl32 (fl32 2 * fl32 (fl (100 / 3)))
         \<and> \<bar>rs ! 1 - 200 / 3\<bar> \<le> (200 / 3) / 2 ^ 22"
    by blast
  with s i show ?thesis by blast
qed

section \<open>Properties of \<open>process_image\<close>\<close>

lemma scale_sample: "fl (331 / 568) = 5248913650209979 / 9007199254740992"
proof -
  have b: "binexp (331 / 568) = - 1" by code_simp
  have "fl (331 / 568) = of_int 5248913650209979 * pow2 (- 1 - 52)"
    by (rule fl_eval [OF _ b]) (simp_all add: pow2_def)
  then show ?thesis by (simp add: pow2_def)
qed

lemma width_sample: "fl (5248913650209979 / 9007199254740992 * 568) = 5823013580701695 / 17592186044416"
proof -
  have b: "binexp (5248913650209979 / 9007199254740992 * 568) = 8" by code_simp
  have "fl (5248913650209979 / 9007199254740992 * 568) = of_int 5823013580701695 * pow2 (8 - 52)"
    by (rule fl_eval [OF _ b]) (simp_all add: pow2_def)
  then show ?thesis by (simp add: pow2_def)
qed

lemma height_sample: "fl (5248913650209979 / 9007199254740992 * 700) = 897031141393307 / 2199023255552"
proof -
  have b: "binexp (5248913650209979 / 9007199254740992 * 700) = 8" by code_simp
  have "fl (5248913650209979 / 9007199254740992 * 700) = of_int 7176249131146456 * pow2 (8 - 52)"
    by (rule fl_eval [OF _ b]) (simp_all add: pow2_def)
  then show ?thesis by (simp add: pow2_def)
qed

lemma resize_size_sample: "resize_size 299 (568, 700) = Inr (330, 407)"
proof -
  have w: "nat (trunc (fl (fl (331 / 568) * 568))) = 330"
    unfolding scale_sample width_sample by (subst trunc_eval [of 330]) simp_all
  have h: "nat (trunc (fl (fl (331 / 568) * 700))) = 407"
    unfolding scale_sample height_sample by (subst trunc_eval [of 407]) simp_all
  show ?thesis
    by (simp add: resize_size_def Let_def w h)
qed

lemma resize_size_error:
  "resize_size S sz = Inl e \<Longrightarrow> e = ValueError \<or> e = OverflowError"
  by (auto simp: resize_size_def Let_def split: prod.splits if_splits)

lemma process_image_error:
  "process_image r im S = Inl e \<Longrightarrow> e = ValueError \<or> e = OverflowError"
  by (auto simp: process_image_def Let_def split: sum.splits if_splits dest: resize_size_error)

lemma im_bands_center_crop: "im_bands (center_crop im S) = im_bands im"
  by (simp add: center_crop_def pil_crop_def Let_def)

lemma im_bands_pil_resize: "im_bands (pil_resize r im sz) = im_bands im"
  by (simp add: pil_resize_def)

lemma process_image_rgb:
  "im_bands im = 3 \<Longrightarrow> resize_size S (im_size im) = Inr sz \<Longrightarrow>
     process_image r im S = Inr (to_chw (center_crop (pil_resize r im sz) S))"
  by (simp add: process_image_def Let_def im_bands_center_crop im_bands_pil_resize)

lemma center_crop_size: "im_size (center_crop im S) = (S, S)"
  by (simp add: center_crop_def pil_crop_def Let_def)

lemma process_image_shape:
  assumes "process_image r im S = Inr t"
  shows "length t = 3 \<and> (\<forall>plane\<in>set t. length plane = S \<and> (\<forall>row\<in>set plane. length row = S))"
proof -
  from assms obtain sz where
    t: "t = to_chw (center_crop (pil_resize r im sz) S)"
    by (auto simp: process_image_def Let_def split: sum.splits if_splits)
  show ?thesis unfolding t by (auto simp: to_chw_def center_crop_size)
qed

text \<open>
  Claim C6 says that \<open>process_image\<close> first resizes the image so that its shortest side is
  \<open>out_size + 32\<close>. For an image of 568 by 700 pixels and the default \<open>out_size\<close> of 299
  the size passed to \<open>resize\<close> is 330 by 407, one pixel short of 331: the double
  \<open>331 / 568\<close> times 568 rounds to \<open>331 - 2^-44\<close>, which \<open>int\<close> truncates to 330. The
  crop and the normalisation then run on the image of that size.
\<close>

theorem process_image_resize_short_side:
  "resize_size 299 (568, 700) = Inr (330, 407)
   \<and> process_image r \<lparr>im_size = (568, 700), im_bands = 3, im_px = px\<rparr> 299
       = Inr (to_chw (center_crop
               (pil_resize r \<lparr>im_size = (568, 700), im_bands = 3, im_px = px\<rparr> (330, 407)) 299))"
  using process_image_rgb [of "\<lparr>im_size = (568, 700), im_bands = 3, im_px = px\<rparr>" 299 "(330, 407)" r]
    resize_size_sample
  by simp

section \<open>Properties of \<open>predict\<close>\<close>

lemma Image_open_isfile:
  "isfile w p \<Longrightarrow> Image_open en w p \<noteq> Inl FileNotFoundError"
  by (auto simp: isfile_def Image_open_def split: option.splits node.splits content.splits)

lemma predict_missing:
  "\<not> isfile w p \<Longrightarrow> predict en w p model k = (Inl FileNotFoundError, model)"
  by (simp add: predict_def)

lemma topk_error: "topk tk row k = Inl e \<Longrightarrow> e = RuntimeError"
  by (auto simp: topk_def Let_def split: if_splits)

lemma predict_present:
  assumes "isfile w p"
  shows "fst (predict en w p model k) \<noteq> Inl FileNotFoundError"
  using assms Image_open_isfile [OF assms, of en]
  by (auto simp: predict_def Let_def split: sum.splits option.splits prod.splits if_splits
           dest!: process_image_error topk_error)

text \<open>
  Claim C2. \<open>predict\<close> raises FileNotFoundError if and only if the path is not an existing
  file (\<open>os.path.isfile\<close> is false: nothing is there, or a directory is). In that case
  the exception is the whole outcome: no decoding takes place, so no decoding error can
  arise, and the model object is returned as it was passed in.
\<close>

theorem predict_file_not_found:
  "(fst (predict en w p model k) = Inl FileNotFoundError \<longleftrightarrow> \<not> isfile w p)
   \<and> (\<not> isfile w p \<longrightarrow> predict en w p model k = (Inl FileNotFoundError, model))"
  using predict_missing [of w p en model k] predict_present [of w p en model k]
  by auto

theorem predict_file_not_found_witness:
  "\<not> isfile sample_world ''./nonexistent.jpg''
   \<and> predict sample_env sample_world ''./nonexistent.jpg'' sample_model 5
       = (Inl FileNotFoundError, sample_model)"
proof -
  have h: "\<not> isfile sample_world ''./nonexistent.jpg''"
    by (simp add: isfile_def sample_world_def)
  with predict_file_not_found [of sample_env sample_world "''./nonexistent.jpg''" sample_model 5]
  show ?thesis by blast
qed


lemma predict_total:
  assumes "Image_open en w p = Inr pil"
    and "process_image (e_resample en) pil 299 = Inr img"
    and "0 \<le> k" and "k \<le> int (length (e_net en (map_of (weights model)) img))"
    and "class_to_idx model = Some items" and "items \<noteq> []"
  shows "predict en w p model k
     = (Inr (e_softmax en (map (\<lambda>i. e_net en (map_of (weights model)) img ! i)
                          (e_topk en (e_net en (map_of (weights model)) img) (nat k))),
             map (\<lambda>i. invert_dict items (int i))
                 (e_topk en (e_net en (map_of (weights model)) img) (nat k)),
             img),
        model\<lparr>m_dtype := Float64, m_device := Cpu, training := False\<rparr>)"
proof -
  from assms(1) have "isfile w p"
    by (auto simp: Image_open_def isfile_def split: option.splits node.splits content.splits)
  with assms show ?thesis
    by (simp add: predict_def Let_def topk_def)
qed

lemma invert_dict_None: "invert_dict items i = None \<longleftrightarrow> i \<notin> snd ` set items"
  by (force simp: invert_dict_def map_of_eq_None_iff image_iff)

lemma topk_sample: "sample_topk [1, 5, 2, 3] 2 = [1, 3]" "sample_topk [1, 5, 2, 3] 1 = [1]"
  by code_simp+

lemma sample_process: "process_image (e_resample sample_env) sample_image 299 = Inr sample_tensor"
  unfolding sample_tensor_def
  by (rule process_image_rgb) (simp_all add: sample_image_def resize_size_sample)

lemma sample_open: "Image_open sample_env sample_world ''rose.jpg'' = Inr sample_image"
  by (simp add: Image_open_def sample_world_def sample_env_def)

lemma sample_net: "e_net sample_env sd img = [1, 5, 2, 3]"
  by (simp add: sample_env_def)












text \<open>
  Claim C10, as stated: a selected index that is absent from the class-to-index mapping is
  mapped to \<open>None\<close> rather than raising an error. With an empty mapping every selected index
  is absent, and \<open>predict\<close> raises ValueError: \<open>zip(*model.class_to_idx.items())\<close> yields
  nothing to unpack into \<open>k, v\<close>.
\<close>

theorem predict_missing_label_none_counterexample:
  "isfile sample_world ''rose.jpg''
   \<and> e_topk sample_env [1, 5, 2, 3] 2 = [1, 3]
   \<and> int 1 \<notin> snd ` set ([] :: (string \<times> int) list)
   \<and> fst (predict sample_env sample_world ''rose.jpg'' (sample_model\<lparr>class_to_idx := Some []\<rparr>) 2)
       = Inl ValueError"
proof -
  have f: "isfile sample_world ''rose.jpg''" by (simp add: isfile_def sample_world_def)
  have t: "e_topk sample_env [1, 5, 2, 3] 2 = [1, 3]" by (simp add: sample_env_def topk_sample)
  have "fst (predict sample_env sample_world ''rose.jpg'' (sample_model\<lparr>class_to_idx := Some []\<rparr>) 2)
       = Inl ValueError"
    by (simp add: predict_def f sample_open sample_process Let_def sample_net topk_def)
  with f t show ?thesis by simp
qed

text \<open>
  Claim C10, amended. For an image file that opens and is processed, \<open>0 \<le> K\<close> at most the
  length of the output vector, and a class-to-index mapping with at least one entry,
  \<open>predict\<close> returns. The label list has one entry per index that \<open>topk\<close> selected; the
  entry is \<open>None\<close> exactly when the index is no value of the mapping, and otherwise it is a
  class that the mapping sends to that index.
\<close>

theorem predict_missing_label_none:
  assumes opened: "Image_open en w p = Inr pil"
    and processed: "process_image (e_resample en) pil 299 = Inr img"
    and out: "out = e_net en (map_of (weights model)) img"
    and k0: "0 \<le> k" and kn: "k \<le> int (length out)"
    and items: "class_to_idx model = Some items" and ne: "items \<noteq> []"
    and idx: "idx = e_topk en out (nat k)"
  shows "\<exists>prob labels.
           fst (predict en w p model k) = Inr (prob, labels, img)
         \<and> length labels = length idx
         \<and> (\<forall>j<length idx.
               (labels ! j = None \<longleftrightarrow> int (idx ! j) \<notin> snd ` set items)
             \<and> (\<forall>c. labels ! j = Some c \<longrightarrow> (c, int (idx ! j)) \<in> set items))"
proof -
  from kn have kn': "k \<le> int (length (e_net en (map_of (weights model)) img))" by (simp add: out)
  let ?labels = "map (\<lambda>i. invert_dict items (int i)) idx"
  from predict_total [OF opened processed k0 kn' items ne]
  have "fst (predict en w p model k)
          = Inr (e_softmax en (map (\<lambda>i. out ! i) idx), ?labels, img)"
    by (simp add: out idx)
  moreover have "length ?labels = length idx" by simp
  moreover have "\<forall>j<length idx.
               (?labels ! j = None \<longleftrightarrow> int (idx ! j) \<notin> snd ` set items)
             \<and> (\<forall>c. ?labels ! j = Some c \<longrightarrow> (c, int (idx ! j)) \<in> set items)"
  proof (intro allI impI conjI)
    fix j assume "j < length idx"
    then show "?labels ! j = None \<longleftrightarrow> int (idx ! j) \<notin> snd ` set items"
      by (simp add: invert_dict_None)
  next
    fix j c assume j: "j < length idx" and "?labels ! j = Some c"
    then have "invert_dict items (int (idx ! j)) = Some c" by simp
    then have "(int (idx ! j), c) \<in> set (rev (map (\<lambda>(k, v). (v, k)) items))"
      unfolding invert_dict_def by (rule map_of_SomeD)
    then show "(c, int (idx ! j)) \<in> set items" by auto
  qed
  ultimately show ?thesis by blast
qed

theorem predict_missing_label_none_witness:
  "Image_open sample_env sample_world ''rose.jpg'' = Inr sample_image
   \<and> process_image (e_resample sample_env) sample_image 299 = Inr sample_tensor
   \<and> class_to_idx sample_model = Some [(''1'', 0), (''74'', 3)]
   \<and> e_topk sample_env [1, 5, 2, 3] (nat 2) = [1, 3]
   \<and> (\<exists>prob labels.
         fst (predict sample_env sample_world ''rose.jpg'' sample_model 2)
           = Inr (prob, labels, sample_tensor)
       \<and> length labels = 2
       \<and> labels ! 0 = None
       \<and> int ([1, 3] ! 0) \<notin> snd ` set [(''1'', 0 :: int), (''74'', 3)]
       \<and> labels ! 1 \<noteq> None)"
proof -
  have c: "class_to_idx sample_model = Some [(''1'', 0), (''74'', 3)]"
    by (simp add: sample_model_def)
  have o: "[1, 5, 2, 3] = e_net sample_env (map_of (weights sample_model)) sample_tensor"
    by (simp add: sample_net)
  have k: "(0::int) \<le> 2" "(2::int) \<le> int (length [1, 5, 2, 3 :: rat])" by simp_all
  have n: "[(''1'', 0 :: int), (''74'', 3)] \<noteq> []" by simp
  have t: "e_topk sample_env [1, 5, 2, 3] (nat 2) = [1, 3]"
    using topk_sample(1) by (simp add: sample_env_def)
  from predict_missing_label_none [OF sample_open sample_process o k c n t [symmetric]]
  obtain prob labels where
    r: "fst (predict sample_env sample_world ''rose.jpg'' sample_model 2)
           = Inr (prob, labels, sample_tensor)"
    and l: "length labels = length [1, 3 :: nat]"
    and a: "\<forall>j<length [1, 3 :: nat].
               (labels ! j = None \<longleftrightarrow> int ([1, 3] ! j) \<notin> snd ` set [(''1'', 0 :: int), (''74'', 3)])
             \<and> (\<forall>c. labels ! j = Some c \<longrightarrow> (c, int ([1, 3] ! j)) \<in> set [(''1'', 0 :: int), (''74'', 3)])"
    by blast
  from a have a0: "labels ! 0 = None \<longleftrightarrow> int ([1, 3] ! 0) \<notin> snd ` set [(''1'', 0 :: int), (''74'', 3)]"
    by simp
  from a have a1: "labels ! 1 = None \<longleftrightarrow> int ([1, 3] ! 1) \<notin> snd ` set [(''1'', 0 :: int), (''74'', 3)]"
    by simp
  have m0: "int ([1, 3] ! 0) \<notin> snd ` set [(''1'', 0 :: int), (''74'', 3)]" by simp
  with a0 have l0: "labels ! 0 = None" by blast
  from a1 have l1: "labels ! 1 \<noteq> None" by simp
  from r l l0 m0 l1 have "\<exists>prob labels.
         fst (predict sample_env sample_world ''rose.jpg'' sample_model 2)
           = Inr (prob, labels, sample_tensor)
       \<and> length labels = 2
       \<and> labels ! 0 = None
       \<and> int ([1, 3] ! 0) \<notin> snd ` set [(''1'', 0 :: int), (''74'', 3)]
       \<and> labels ! 1 \<noteq> None"
    by auto
  with sample_open sample_process c t show ?thesis by blast
qed

section \<open>Properties of \<open>get_data\<close>\<close>

text \<open>
  Claim C9. If the path \<open>data_dir + train_dirname\<close> exists, \<open>get_data\<close> returns at once:
  the world after the call is the world before it, with the same files and directories and
  no request made.
\<close>

theorem get_data_skips:
  "path_exists w (data_dir @ train_dirname) \<Longrightarrow>
     get_data en w url data_dir train_dirname = (Inr (), w)"
  by (simp add: get_data_def)

theorem get_data_skips_witness:
  "path_exists sample_world (''flowers'' @ ''/train'')
   \<and> get_data sample_env sample_world ''http://host/flower_data.tar.gz'' ''flowers'' ''/train''
       = (Inr (), sample_world)"
proof -
  have h: "path_exists sample_world (''flowers'' @ ''/train'')"
    by (simp add: path_exists_def sample_world_def)
  from get_data_skips [OF h] h show ?thesis by blast
qed

section \<open>Properties of the checkpoint functions\<close>

lemma load_state_dict_weights:
  assumes "load_state_dict model sd = Inr model'"
  shows "map_of (weights model') = map_of sd"
proof
  fix k
  from assms have
    a: "list_all (\<lambda>(k, t). case map_of sd k of None \<Rightarrow> False | Some t' \<Rightarrow> fst t' = fst t) (weights model)"
    and b: "list_all (\<lambda>(k, t). k \<in> set (map fst (weights model))) sd"
    and w: "weights model' = map (\<lambda>(k, t). (k, case map_of sd k of None \<Rightarrow> t | Some t' \<Rightarrow> t')) (weights model)"
    by (auto simp: load_state_dict_def split: if_splits)
  show "map_of (weights model') k = map_of sd k"
  proof (cases "k \<in> fst ` set (weights model)")
    case True
    then obtain t where "(k, t) \<in> set (weights model)" by auto
    with a obtain t' where t': "map_of sd k = Some t'"
      by (auto simp: list_all_iff split: option.splits)
    have "map_of (map (\<lambda>(k, t). (k, case map_of sd k of None \<Rightarrow> t | Some t' \<Rightarrow> t')) xs) k
          = (if k \<in> fst ` set xs then Some t' else None)" for xs
      using t' by (induction xs) auto
    with True w t' show ?thesis by simp
  next
    case False
    then have "map_of (weights model') k = None"
      unfolding w by (force simp: map_of_eq_None_iff image_iff)
    moreover have "map_of sd k = None"
    proof (rule ccontr)
      assume "map_of sd k \<noteq> None"
      then obtain t where "(k, t) \<in> set sd" by (auto dest: map_of_SomeD)
      with b have "k \<in> set (map fst (weights model))" by (auto simp: list_all_iff)
      with False show False by simp
    qed
    ultimately show ?thesis by simp
  qed
qed

lemma load_state_dict_attrs:
  "load_state_dict model sd = Inr model' \<Longrightarrow> class_to_idx model' = class_to_idx model"
  by (auto simp: load_state_dict_def split: if_splits)

lemma validate_weights:
  "map_of (weights m1) = map_of (weights m2) \<Longrightarrow> fst (validate en m1 loader dev) = fst (validate en m2 loader dev)"
  by (simp add: validate_def Let_def split: sum.splits prod.splits)

lemma save_checkpoint_file:
  assumes "save_checkpoint w model f = (Inr (), w')"
  shows "\<exists>c. files w' f = Some (File (Pickled c)) \<and> ck_state_dict c = weights model
            \<and> Some (ck_class_to_idx c) = class_to_idx model"
  using assms
  by (auto simp: save_checkpoint_def write_file_def Let_def
           split: option.splits sum.splits if_splits)

text \<open>
  Claim C1 says that saving a checkpoint and loading it gives back a model with the same
  weights, the same \<open>class_to_idx\<close> and the same validation accuracy. For the call
  \<open>load_checkpoint()\<close> without a model, as the notebook makes it, the weights and the
  validation accuracy on the same batches do come back, but \<open>class_to_idx\<close>, which the
  saved model has and \<open>save_checkpoint\<close> writes into the file, is absent from the loaded
  model: \<open>load_checkpoint\<close> never reads it.
\<close>

theorem load_checkpoint_drops_class_to_idx:
  assumes "save_checkpoint w model f = (Inr (), w')"
    and "load_checkpoint en w' None f = Inr (model', optimizer)"
  shows "map_of (weights model') = map_of (weights model)
     \<and> fst (validate en model' loader dev) = fst (validate en model loader dev)
     \<and> class_to_idx model \<noteq> None
     \<and> class_to_idx model' = None"
proof -
  from save_checkpoint_file [OF assms(1)] obtain c where
    c: "files w' f = Some (File (Pickled c))" "ck_state_dict c = weights model"
       "Some (ck_class_to_idx c) = class_to_idx model"
    by blast
  from assms(2) c(1)
  have "\<exists>n. load_state_dict (NewModel en n) (ck_state_dict c) = Inr model'"
    by (auto simp: load_checkpoint_def torch_load_def split: sum.splits)
  then obtain n where
    l: "load_state_dict (NewModel en n) (ck_state_dict c) = Inr model'"
    by blast
  from load_state_dict_weights [OF l] c(2)
  have w: "map_of (weights model') = map_of (weights model)" by simp
  from load_state_dict_attrs [OF l]
  have "class_to_idx model' = None" by (simp add: NewModel_def)
  moreover from c(3) have "class_to_idx model \<noteq> None" by (cases "class_to_idx model") auto
  ultimately show ?thesis using w validate_weights [OF w] by blast
qed

theorem load_checkpoint_drops_class_to_idx_witness:
  "save_checkpoint sample_world sample_model ''./checkpoint.pth''
     = (Inr (), snd (save_checkpoint sample_world sample_model ''./checkpoint.pth''))
   \<and> load_checkpoint sample_env (snd (save_checkpoint sample_world sample_model ''./checkpoint.pth''))
        None ''./checkpoint.pth''
       = Inr ((NewModel sample_env 2)\<lparr>weights := sample_weights\<rparr>,
              \<lparr>os_group_sizes = [4], os_momentum = []\<rparr>)
   \<and> map_of (weights ((NewModel sample_env 2)\<lparr>weights := sample_weights\<rparr>))
       = map_of (weights sample_model)
   \<and> class_to_idx sample_model = Some [(''1'', 0), (''74'', 3)]
   \<and> class_to_idx ((NewModel sample_env 2)\<lparr>weights := sample_weights\<rparr>) = None"
proof -
  have s: "save_checkpoint sample_world sample_model ''./checkpoint.pth''
     = (Inr (), snd (save_checkpoint sample_world sample_model ''./checkpoint.pth''))"
    by (simp add: save_checkpoint_def sample_model_def sample_world_def write_file_def
          dirname_def isfile_def)
  have l: "load_checkpoint sample_env (snd (save_checkpoint sample_world sample_model ''./checkpoint.pth''))
        None ''./checkpoint.pth''
       = Inr ((NewModel sample_env 2)\<lparr>weights := sample_weights\<rparr>,
              \<lparr>os_group_sizes = [4], os_momentum = []\<rparr>)"
    by (simp add: save_checkpoint_def sample_model_def sample_world_def write_file_def
          dirname_def isfile_def load_checkpoint_def sample_env_def torch_load_def
          NewModel_def load_state_dict_def SGD_load_state_dict_def sample_weights_def)
  have c: "class_to_idx sample_model = Some [(''1'', 0), (''74'', 3)]"
    by (simp add: sample_model_def)
  from load_checkpoint_drops_class_to_idx [OF s l] s l c show ?thesis by blast
qed

end
